theory Spec2Isabelle
  imports Main "HOL-Library.Monad_Syntax"
begin

section \<open>Timestamps\<close>

text \<open>
  The graph screen reducer works on \<^verbatim>\<open>moment.Moment\<close> objects. The moment library is
  not part of the repository, so the few operations the reducer calls are modelled here.
  A moment is read as its wall-clock time in the local zone, counted in milliseconds
  from local 1970-01-01T00:00:00.000; the zone's offset is taken as constant over the
  period the reducer looks at, and every moment is a valid one. Two later sections lift
  these restrictions where a property depends on them: the generator is stated again over
  instants and an arbitrary time zone, and the reducer over moments that may be invalid.
\<close>

type_synonym moment = int

text \<open>Days between 1970-01-01 and a calendar date of the proleptic Gregorian calendar.\<close>

definition days_from_civil :: "int \<Rightarrow> int \<Rightarrow> int \<Rightarrow> int" where
  "days_from_civil y m d =
     (let y' = (if m \<le> 2 then y - 1 else y);
          era = y' div 400;
          yoe = y' - era * 400;
          mp = (m + 9) mod 12;
          doy = (153 * mp + 2) div 5 + d - 1;
          doe = yoe * 365 + yoe div 4 - yoe div 100 + doy
      in era * 146097 + doe - 719468)"

definition ms_per_minute :: int where
  "ms_per_minute = 60000"

definition ms_per_hour :: int where
  "ms_per_hour = 3600000"

definition ms_per_day :: int where
  "ms_per_day = 86400000"

text \<open>\<^verbatim>\<open>moment("YYYY-MM-DD")\<close>: local midnight of that day.\<close>

definition moment_ymd :: "int \<Rightarrow> int \<Rightarrow> int \<Rightarrow> moment" where
  "moment_ymd y m d = days_from_civil y m d * ms_per_day"

text \<open>\<^verbatim>\<open>a.isBefore(b)\<close> and \<^verbatim>\<open>a.isAfter(b)\<close> compare to the millisecond.\<close>

definition isBefore :: "moment \<Rightarrow> moment \<Rightarrow> bool" where
  "isBefore a b = (a < b)"

definition isAfter :: "moment \<Rightarrow> moment \<Rightarrow> bool" where
  "isAfter a b = (a > b)"

text \<open>\<^verbatim>\<open>m.hours()\<close> and \<^verbatim>\<open>m.minutes()\<close>: the wall-clock fields.\<close>

definition hours :: "moment \<Rightarrow> int" where
  "hours m = (m div ms_per_hour) mod 24"

definition minutes :: "moment \<Rightarrow> int" where
  "minutes m = (m div ms_per_minute) mod 60"

text \<open>\<^verbatim>\<open>m.add("minutes", n)\<close>: the moment n minutes later.\<close>

definition add_minutes :: "moment \<Rightarrow> int \<Rightarrow> moment" where
  "add_minutes m n = m + n * ms_per_minute"

text \<open>\<^verbatim>\<open>m.clone()\<close>: as a value, the same timestamp.\<close>

definition clone :: "moment \<Rightarrow> moment" where
  "clone m = m"

section \<open>The graph screen state and its constants\<close>

record DateTimePoint =
  time :: moment
  "value" :: int

record GraphScreenState =
  dateFrom :: moment
  dateTo :: moment
  points :: "DateTimePoint list"

definition SAMPLE_VALUE_MAX :: int where
  "SAMPLE_VALUE_MAX = 150"

definition DATE_RANGE_MIN_VALUE :: moment where
  "DATE_RANGE_MIN_VALUE = moment_ymd 2010 5 1"

definition DATE_RANGE_MAX_VALUE :: moment where
  "DATE_RANGE_MAX_VALUE = moment_ymd 2010 5 28"

definition DATE_WINDOW_FROM_VALUE :: moment where
  "DATE_WINDOW_FROM_VALUE = moment_ymd 2010 5 3"

definition DATE_WINDOW_TO_VALUE :: moment where
  "DATE_WINDOW_TO_VALUE = moment_ymd 2010 5 5"

definition SAMPLES_EVERY_MINUTE :: int where
  "SAMPLES_EVERY_MINUTE = 5"

text \<open>\<^verbatim>\<open>_.clone(xs)\<close> on an array: as a value, the same sequence.\<close>

definition lodash_clone :: "'a list \<Rightarrow> 'a list" where
  "lodash_clone xs = xs"

section \<open>The series generator\<close>

text \<open>
  The point pushed for the current reference date, and the \<^verbatim>\<open>while\<close> loop of
  \<^verbatim>\<open>randomDateTimePoints\<close> over its two variables.
\<close>

definition sample_point :: "moment \<Rightarrow> DateTimePoint" where
  "sample_point referenceDate =
     \<lparr>time = clone referenceDate,
      value = 180 * hours referenceDate + minutes referenceDate\<rparr>"

function points_loop :: "moment \<Rightarrow> DateTimePoint list \<Rightarrow> DateTimePoint list" where
  "points_loop referenceDate result =
     (if isBefore referenceDate DATE_RANGE_MAX_VALUE
      then points_loop (add_minutes referenceDate SAMPLES_EVERY_MINUTE)
             (result @ [sample_point referenceDate])
      else result)"
  by pat_completeness auto
termination
  by (relation "measure (\<lambda>(r, acc). nat (DATE_RANGE_MAX_VALUE - r))")
     (auto simp: isBefore_def add_minutes_def SAMPLES_EVERY_MINUTE_def ms_per_minute_def)

definition randomDateTimePoints :: "DateTimePoint list" where
  "randomDateTimePoints = points_loop (clone DATE_RANGE_MIN_VALUE) []"

definition initialState :: GraphScreenState where
  "initialState =
     \<lparr>dateFrom = DATE_WINDOW_FROM_VALUE,
      dateTo = DATE_WINDOW_TO_VALUE,
      points = randomDateTimePoints\<rparr>"

text \<open>The loop's step in milliseconds.\<close>

definition step_ms :: int where
  "step_ms = SAMPLES_EVERY_MINUTE * ms_per_minute"

section \<open>The series generator in a time zone\<close>

text \<open>
  The generator once more, with the time zone in view. Here a moment is an instant,
  counted in milliseconds from 1970-01-01T00:00:00.000 UTC, and a zone gives the offset of
  local time from UTC at each instant. On instants \<^const>\<open>isBefore\<close> compares points
  in real time and \<^const>\<open>add_minutes\<close> moves real time, as the library does, while
  the hour and the minute are read off the wall clock of the zone.
\<close>

type_synonym zone = "int \<Rightarrow> int"

text \<open>
  The instant of a local date and time, and with it \<^verbatim>\<open>moment("YYYY-MM-DD")\<close>, local
  midnight of that day, in a zone. Where the offset does not change within a day of the
  local time the result is the one instant with that wall-clock reading, and the
  theorems use it only there. \<^verbatim>\<open>m.hours()\<close> and \<^verbatim>\<open>m.minutes()\<close> are the fields
  of the instant moved by the zone's offset.
\<close>

definition local_to_instant :: "zone \<Rightarrow> int \<Rightarrow> moment" where
  "local_to_instant z t = t - z (t - z t)"

definition moment_ymd_in :: "zone \<Rightarrow> int \<Rightarrow> int \<Rightarrow> int \<Rightarrow> moment" where
  "moment_ymd_in z y m d = local_to_instant z (moment_ymd y m d)"

definition hours_in :: "zone \<Rightarrow> moment \<Rightarrow> int" where
  "hours_in z m = ((m + z m) div ms_per_hour) mod 24"

definition minutes_in :: "zone \<Rightarrow> moment \<Rightarrow> int" where
  "minutes_in z m = ((m + z m) div ms_per_minute) mod 60"

definition DATE_RANGE_MIN_VALUE_in :: "zone \<Rightarrow> moment" where
  "DATE_RANGE_MIN_VALUE_in z = moment_ymd_in z 2010 5 1"

definition DATE_RANGE_MAX_VALUE_in :: "zone \<Rightarrow> moment" where
  "DATE_RANGE_MAX_VALUE_in z = moment_ymd_in z 2010 5 28"

definition sample_point_in :: "zone \<Rightarrow> moment \<Rightarrow> DateTimePoint" where
  "sample_point_in z referenceDate =
     \<lparr>time = clone referenceDate,
      value = 180 * hours_in z referenceDate + minutes_in z referenceDate\<rparr>"

function points_loop_in :: "zone \<Rightarrow> moment \<Rightarrow> DateTimePoint list \<Rightarrow> DateTimePoint list" where
  "points_loop_in z referenceDate result =
     (if isBefore referenceDate (DATE_RANGE_MAX_VALUE_in z)
      then points_loop_in z (add_minutes referenceDate SAMPLES_EVERY_MINUTE)
             (result @ [sample_point_in z referenceDate])
      else result)"
  by pat_completeness auto
termination
  by (relation "measure (\<lambda>(z, r, acc). nat (DATE_RANGE_MAX_VALUE_in z - r))")
     (auto simp: isBefore_def add_minutes_def SAMPLES_EVERY_MINUTE_def ms_per_minute_def)

definition randomDateTimePoints_in :: "zone \<Rightarrow> DateTimePoint list" where
  "randomDateTimePoints_in z = points_loop_in z (clone (DATE_RANGE_MIN_VALUE_in z)) []"

text \<open>
  The series as the specification words it: start at the range minimum; while the current
  timestamp is strictly before the range maximum, emit a point whose time is the current
  timestamp and whose value is 180 times its hour of day plus its minute of hour, and
  advance by five minutes.
\<close>

function spec_series_in :: "zone \<Rightarrow> moment \<Rightarrow> moment \<Rightarrow> DateTimePoint list" where
  "spec_series_in z current range_max =
     (if current < range_max
      then \<lparr>time = current, value = 180 * hours_in z current + minutes_in z current\<rparr>
             # spec_series_in z (current + 5 * ms_per_minute) range_max
      else [])"
  by pat_completeness auto
termination
  by (relation "measure (\<lambda>(z, c, hi). nat (hi - c))") (auto simp: ms_per_minute_def)

text \<open>
  Two zones to compute in: one at a fixed offset, and one that is at UTC until
  2010-05-09T02:00 and an hour ahead of it from then on.
\<close>

definition zone_fixed :: "int \<Rightarrow> zone" where
  "zone_fixed k = (\<lambda>u. k)"

definition zone_spring_forward :: zone where
  "zone_spring_forward =
     (\<lambda>u. if u < moment_ymd 2010 5 9 + 2 * ms_per_hour then 0 else ms_per_hour)"

section \<open>The reducer\<close>

text \<open>
  The handler registered for \<^verbatim>\<open>CHANGE_DATE_FROM_VALUE\<close> (the specification's
  setWindowStart) and the one for \<^verbatim>\<open>CHANGE_DATE_TO_VALUE\<close> (setWindowEnd). The calls
  to \<^verbatim>\<open>console.log\<close> do not touch the state and are left out.
\<close>

definition changeDateFromValue :: "GraphScreenState \<Rightarrow> moment \<Rightarrow> GraphScreenState" where
  "changeDateFromValue state payload =
     (if isBefore payload DATE_RANGE_MIN_VALUE then state
      else \<lparr>dateFrom = payload,
            dateTo = clone (dateTo state),
            points = lodash_clone (points state)\<rparr>)"

definition changeDateToValue :: "GraphScreenState \<Rightarrow> moment \<Rightarrow> GraphScreenState" where
  "changeDateToValue state payload =
     (if isAfter payload DATE_RANGE_MAX_VALUE then state
      else \<lparr>dateFrom = clone (dateFrom state),
            dateTo = payload,
            points = lodash_clone (points state)\<rparr>)"

text \<open>
  \<^verbatim>\<open>handleActions\<close> picks the handler by the action's type and hands the state back
  for every other action.
\<close>

datatype graph_action =
    CHANGE_DATE_FROM_VALUE moment
  | CHANGE_DATE_TO_VALUE moment
  | OTHER_ACTION string

fun graphScreenReducer :: "GraphScreenState \<Rightarrow> graph_action \<Rightarrow> GraphScreenState" where
  "graphScreenReducer state (CHANGE_DATE_FROM_VALUE payload) = changeDateFromValue state payload"
| "graphScreenReducer state (CHANGE_DATE_TO_VALUE payload) = changeDateToValue state payload"
| "graphScreenReducer state (OTHER_ACTION t) = state"

text \<open>The states the store can hold: the initial one and every one an action leads to.\<close>

inductive reachable :: "GraphScreenState \<Rightarrow> bool" where
  reachable_init: "reachable initialState"
| reachable_step: "reachable s \<Longrightarrow> reachable (graphScreenReducer s a)"

section \<open>The reducer over moments that may be invalid\<close>

text \<open>
  A \<^verbatim>\<open>moment.Moment\<close> need not hold a date: parsing can fail, and the object is then
  an invalid moment. The handlers do not ask \<^verbatim>\<open>isValid()\<close>, and the library's
  \<^verbatim>\<open>isBefore\<close> and \<^verbatim>\<open>isAfter\<close> answer false as soon as one side is invalid. The
  state, the handlers and the reducer are given again with such payloads allowed; on
  valid moments they are the ones above.
\<close>

datatype any_moment = ValidAt moment | InvalidDate

fun isBefore_any :: "any_moment \<Rightarrow> any_moment \<Rightarrow> bool" where
  "isBefore_any (ValidAt a) (ValidAt b) = isBefore a b"
| "isBefore_any a b = False"

fun isAfter_any :: "any_moment \<Rightarrow> any_moment \<Rightarrow> bool" where
  "isAfter_any (ValidAt a) (ValidAt b) = isAfter a b"
| "isAfter_any a b = False"

fun clone_any :: "any_moment \<Rightarrow> any_moment" where
  "clone_any (ValidAt a) = ValidAt (clone a)"
| "clone_any InvalidDate = InvalidDate"

record GraphScreenState_any =
  dateFrom_any :: any_moment
  dateTo_any :: any_moment
  points_any :: "DateTimePoint list"

definition initialState_any :: GraphScreenState_any where
  "initialState_any =
     \<lparr>dateFrom_any = ValidAt DATE_WINDOW_FROM_VALUE,
      dateTo_any = ValidAt DATE_WINDOW_TO_VALUE,
      points_any = randomDateTimePoints\<rparr>"

definition changeDateFromValue_any ::
  "GraphScreenState_any \<Rightarrow> any_moment \<Rightarrow> GraphScreenState_any" where
  "changeDateFromValue_any state payload =
     (if isBefore_any payload (ValidAt DATE_RANGE_MIN_VALUE) then state
      else \<lparr>dateFrom_any = payload,
            dateTo_any = clone_any (dateTo_any state),
            points_any = lodash_clone (points_any state)\<rparr>)"

definition changeDateToValue_any ::
  "GraphScreenState_any \<Rightarrow> any_moment \<Rightarrow> GraphScreenState_any" where
  "changeDateToValue_any state payload =
     (if isAfter_any payload (ValidAt DATE_RANGE_MAX_VALUE) then state
      else \<lparr>dateFrom_any = clone_any (dateFrom_any state),
            dateTo_any = payload,
            points_any = lodash_clone (points_any state)\<rparr>)"

datatype graph_action_any =
    CHANGE_DATE_FROM_VALUE_any any_moment
  | CHANGE_DATE_TO_VALUE_any any_moment
  | OTHER_ACTION_any string

fun graphScreenReducer_any ::
  "GraphScreenState_any \<Rightarrow> graph_action_any \<Rightarrow> GraphScreenState_any" where
  "graphScreenReducer_any state (CHANGE_DATE_FROM_VALUE_any payload)
     = changeDateFromValue_any state payload"
| "graphScreenReducer_any state (CHANGE_DATE_TO_VALUE_any payload)
     = changeDateToValue_any state payload"
| "graphScreenReducer_any state (OTHER_ACTION_any t) = state"

inductive reachable_any :: "GraphScreenState_any \<Rightarrow> bool" where
  reachable_any_init: "reachable_any initialState_any"
| reachable_any_step: "reachable_any s \<Longrightarrow> reachable_any (graphScreenReducer_any s a)"

definition lift_state :: "GraphScreenState \<Rightarrow> GraphScreenState_any" where
  "lift_state s =
     \<lparr>dateFrom_any = ValidAt (dateFrom s),
      dateTo_any = ValidAt (dateTo s),
      points_any = points s\<rparr>"

fun lift_action :: "graph_action \<Rightarrow> graph_action_any" where
  "lift_action (CHANGE_DATE_FROM_VALUE c) = CHANGE_DATE_FROM_VALUE_any (ValidAt c)"
| "lift_action (CHANGE_DATE_TO_VALUE c) = CHANGE_DATE_TO_VALUE_any (ValidAt c)"
| "lift_action (OTHER_ACTION t) = OTHER_ACTION_any t"

section \<open>The reducer over objects and references\<close>

text \<open>
  Moments, points, arrays and states are JavaScript objects, held by reference. To say
  what a handler allocates, shares and leaves alone, the objects live in a store: a
  reference is an index into it, and a new object is put at its end, so that no object
  already there moves or changes.
\<close>

type_synonym ref = nat

datatype obj =
    MomentObj moment
  | DateTimePointObj ref int
  | ArrayObj "ref list"
  | GraphScreenStateObj ref ref ref

type_synonym heap = "obj list"

definition deref :: "heap \<Rightarrow> ref \<Rightarrow> obj option" where
  "deref h r = (if r < length h then Some (h ! r) else None)"

definition alloc :: "heap \<Rightarrow> obj \<Rightarrow> heap \<times> ref" where
  "alloc h ob = (h @ [ob], length h)"

text \<open>
  The operations the handlers call, on references. The result is \<^const>\<open>None\<close> where the
  JavaScript raises a TypeError (a property read or a method call on something that is
  not the object the types promise) and, for \<^verbatim>\<open>_.clone\<close>, where the argument is not
  the array the state's type says it is.
\<close>

definition valueOf :: "heap \<Rightarrow> ref \<Rightarrow> moment option" where
  "valueOf h r = (case deref h r of Some (MomentObj t) \<Rightarrow> Some t | _ \<Rightarrow> None)"

definition clone_ref :: "heap \<Rightarrow> ref \<Rightarrow> (heap \<times> ref) option" where
  "clone_ref h r =
     (case deref h r of
        Some (MomentObj t) \<Rightarrow> Some (alloc h (MomentObj (clone t)))
      | _ \<Rightarrow> None)"

definition lodash_clone_ref :: "heap \<Rightarrow> ref \<Rightarrow> (heap \<times> ref) option" where
  "lodash_clone_ref h r =
     (case deref h r of
        Some (ArrayObj es) \<Rightarrow> Some (alloc h (ArrayObj (lodash_clone es)))
      | _ \<Rightarrow> None)"

definition state_fields :: "heap \<Rightarrow> ref \<Rightarrow> (ref \<times> ref \<times> ref) option" where
  "state_fields h r =
     (case deref h r of
        Some (GraphScreenStateObj dF dT pts) \<Rightarrow> Some (dF, dT, pts)
      | _ \<Rightarrow> None)"

text \<open>
  The two handlers again, statement by statement: the payload is tested first; on
  rejection the handler returns the reference it was given; otherwise the object literal
  is built field by field and allocated.
\<close>

definition changeDateFromValue_ref :: "heap \<Rightarrow> ref \<Rightarrow> ref \<Rightarrow> (heap \<times> ref) option" where
  "changeDateFromValue_ref h state payload =
     do {
       c \<leftarrow> valueOf h payload;
       if isBefore c DATE_RANGE_MIN_VALUE then Some (h, state)
       else do {
         (dF, dT, pts) \<leftarrow> state_fields h state;
         (h1, dT') \<leftarrow> clone_ref h dT;
         (h2, pts') \<leftarrow> lodash_clone_ref h1 pts;
         Some (alloc h2 (GraphScreenStateObj payload dT' pts'))
       }
     }"

definition changeDateToValue_ref :: "heap \<Rightarrow> ref \<Rightarrow> ref \<Rightarrow> (heap \<times> ref) option" where
  "changeDateToValue_ref h state payload =
     do {
       c \<leftarrow> valueOf h payload;
       if isAfter c DATE_RANGE_MAX_VALUE then Some (h, state)
       else do {
         (dF, dT, pts) \<leftarrow> state_fields h state;
         (h1, dF') \<leftarrow> clone_ref h dF;
         (h2, pts') \<leftarrow> lodash_clone_ref h1 pts;
         Some (alloc h2 (GraphScreenStateObj dF' payload pts'))
       }
     }"

text \<open>The value a reference stands for, where the objects under it have the expected shape.\<close>

definition point_of :: "heap \<Rightarrow> ref \<Rightarrow> DateTimePoint option" where
  "point_of h r =
     (case deref h r of
        Some (DateTimePointObj tr v) \<Rightarrow>
          (case valueOf h tr of Some t \<Rightarrow> Some \<lparr>time = t, value = v\<rparr> | None \<Rightarrow> None)
      | _ \<Rightarrow> None)"

definition points_of :: "heap \<Rightarrow> ref \<Rightarrow> DateTimePoint list option" where
  "points_of h r =
     (case deref h r of
        Some (ArrayObj es) \<Rightarrow> those (map (point_of h) es)
      | _ \<Rightarrow> None)"

definition state_of :: "heap \<Rightarrow> ref \<Rightarrow> GraphScreenState option" where
  "state_of h r =
     (case state_fields h r of
        Some (dF, dT, pts) \<Rightarrow>
          (case valueOf h dF of
             Some f \<Rightarrow>
               (case valueOf h dT of
                  Some t \<Rightarrow>
                    (case points_of h pts of
                       Some ps \<Rightarrow> Some \<lparr>dateFrom = f, dateTo = t, points = ps\<rparr>
                     | None \<Rightarrow> None)
                | None \<Rightarrow> None)
           | None \<Rightarrow> None)
      | None \<Rightarrow> None)"

text \<open>
  The references under a points array: the array, its point objects and their time
  moments. Two arrays are deep-independent when they have none in common. A fresh copy
  is an object allocated by the call with the same fields as an older one.
\<close>

definition point_refs :: "heap \<Rightarrow> ref \<Rightarrow> ref list" where
  "point_refs h r =
     r # (case deref h r of Some (DateTimePointObj tr v) \<Rightarrow> [tr] | _ \<Rightarrow> [])"

definition points_refs :: "heap \<Rightarrow> ref \<Rightarrow> ref list" where
  "points_refs h r =
     r # (case deref h r of Some (ArrayObj es) \<Rightarrow> concat (map (point_refs h) es) | _ \<Rightarrow> [])"

definition deep_independent :: "heap \<Rightarrow> ref \<Rightarrow> ref \<Rightarrow> bool" where
  "deep_independent h a b = (set (points_refs h a) \<inter> set (points_refs h b) = {})"

definition fresh_copy :: "heap \<Rightarrow> heap \<Rightarrow> ref \<Rightarrow> ref \<Rightarrow> bool" where
  "fresh_copy h h' old new =
     (length h \<le> new \<and> deref h' new \<noteq> None \<and> deref h' new = deref h old)"

text \<open>
  A small store to compute on: a state (reference 5) with window 2010-05-03 to 2010-05-05
  and one point, and four payloads (references 6 to 9); and the stores two accepted
  commands leave behind.
\<close>

definition heap0 :: heap where
  "heap0 =
     [MomentObj (moment_ymd 2010 5 3),
      MomentObj (moment_ymd 2010 5 5),
      MomentObj (moment_ymd 2010 5 1),
      DateTimePointObj 2 0,
      ArrayObj [3],
      GraphScreenStateObj 0 1 4,
      MomentObj (moment_ymd 2010 5 10),
      MomentObj (moment_ymd 2010 4 30),
      MomentObj (moment_ymd 2010 6 1),
      MomentObj (moment_ymd 2011 1 1)]"

definition state0 :: GraphScreenState where
  "state0 =
     \<lparr>dateFrom = moment_ymd 2010 5 3,
      dateTo = moment_ymd 2010 5 5,
      points = [\<lparr>time = moment_ymd 2010 5 1, value = 0\<rparr>]\<rparr>"

definition heap0_start_2010_05_10 :: heap where
  "heap0_start_2010_05_10 =
     heap0 @ [MomentObj (moment_ymd 2010 5 5), ArrayObj [3], GraphScreenStateObj 6 10 11]"

definition heap0_start_2011_01_01 :: heap where
  "heap0_start_2011_01_01 =
     heap0 @ [MomentObj (moment_ymd 2010 5 5), ArrayObj [3], GraphScreenStateObj 9 10 11]"

section \<open>The random dots screen reducer\<close>

text \<open>
  The state of the random dots screen, as the reducer and its initial state use it: the
  interface's declaration is not among the sources, so the fields are those the code
  reads and writes; \<^verbatim>\<open>text\<close> is absent from the initial state. The actions form a
  discriminated union on their \<^verbatim>\<open>type\<close>: one constructor for each of the three
  action classes, and one for every action of another type, which the store also hands
  to this reducer. A missing state (\<^verbatim>\<open>undefined\<close>) takes the default parameter.
\<close>

record IRandomDotsScreenState =
  width :: int
  height :: int
  color :: string
  "text" :: "string option"

definition randomDots_initialState :: IRandomDotsScreenState where
  "randomDots_initialState = \<lparr>width = 800, height = 600, color = ''lightblue'', text = None\<rparr>"

datatype RandomDotsScreenReducerActionTypes =
    SetWidthAction int
  | SetHeightAction int
  | SetTextAction string
  | OtherAction string

fun randomDotsScreenReducer ::
  "IRandomDotsScreenState option \<Rightarrow> RandomDotsScreenReducerActionTypes \<Rightarrow> IRandomDotsScreenState" where
  "randomDotsScreenReducer st action =
     (let state = (case st of None \<Rightarrow> randomDots_initialState | Some s \<Rightarrow> s)
      in case action of
           SetWidthAction w \<Rightarrow> state\<lparr>width := w\<rparr>
         | SetHeightAction h \<Rightarrow> state\<lparr>height := h\<rparr>
         | SetTextAction t \<Rightarrow> state\<lparr>text := Some t\<rparr>
         | OtherAction ty \<Rightarrow> state)"

section \<open>Facts about the generated series\<close>

declare points_loop.simps [simp del]

lemma points_loop_unroll:
  "DATE_RANGE_MAX_VALUE \<le> r + step_ms * int n \<Longrightarrow>
   (\<forall>k<n. r + step_ms * int k < DATE_RANGE_MAX_VALUE) \<Longrightarrow>
   points_loop r acc = acc @ map (\<lambda>k. sample_point (r + step_ms * int k)) [0..<n]"
proof (induction n arbitrary: r acc)
  case 0
  then show ?case
    by (subst points_loop.simps) (simp add: isBefore_def)
next
  case (Suc n)
  from Suc.prems(2) have lt: "r < DATE_RANGE_MAX_VALUE"
    by (metis add.right_neutral mult_zero_right of_nat_0 zero_less_Suc)
  let ?r' = "add_minutes r SAMPLES_EVERY_MINUTE"
  have r': "?r' = r + step_ms"
    by (simp add: add_minutes_def step_ms_def)
  have a: "DATE_RANGE_MAX_VALUE \<le> ?r' + step_ms * int n"
    using Suc.prems(1) by (simp add: r' algebra_simps)
  have b: "\<forall>k<n. ?r' + step_ms * int k < DATE_RANGE_MAX_VALUE"
  proof (intro allI impI)
    fix k assume "k < n"
    then have "Suc k < Suc n" by simp
    from Suc.prems(2) [rule_format, OF this]
    show "?r' + step_ms * int k < DATE_RANGE_MAX_VALUE"
      by (simp add: r' algebra_simps)
  qed
  have "points_loop r acc = points_loop ?r' (acc @ [sample_point r])"
    using lt by (subst points_loop.simps) (simp add: isBefore_def)
  also have "\<dots> = (acc @ [sample_point r]) @ map (\<lambda>k. sample_point (?r' + step_ms * int k)) [0..<n]"
    by (rule Suc.IH [OF a b])
  also have "map (\<lambda>k. sample_point (?r' + step_ms * int k)) [0..<n]
           = map (\<lambda>k. sample_point (r + step_ms * int k)) (map Suc [0..<n])"
    by (simp add: r' algebra_simps)
  also have "map Suc [0..<n] = [Suc 0..<Suc n]"
    by (rule map_Suc_upt)
  finally show ?case
    by (simp add: upt_conv_Cons del: upt_Suc)
qed

lemma range_min_ms: "DATE_RANGE_MIN_VALUE = 1272672000000"
  by (simp add: DATE_RANGE_MIN_VALUE_def moment_ymd_def days_from_civil_def ms_per_day_def)

lemma range_max_ms: "DATE_RANGE_MAX_VALUE = 1275004800000"
  by (simp add: DATE_RANGE_MAX_VALUE_def moment_ymd_def days_from_civil_def ms_per_day_def)

lemma step_ms_val: "step_ms = 300000"
  by (simp add: step_ms_def SAMPLES_EVERY_MINUTE_def ms_per_minute_def)

lemma range_span: "DATE_RANGE_MAX_VALUE = DATE_RANGE_MIN_VALUE + step_ms * 7776"
  by (simp add: range_min_ms range_max_ms step_ms_val)

lemma randomDateTimePoints_closed:
  "randomDateTimePoints =
     map (\<lambda>k. sample_point (DATE_RANGE_MIN_VALUE + step_ms * int k)) [0..<7776]"
proof -
  have a: "DATE_RANGE_MAX_VALUE \<le> DATE_RANGE_MIN_VALUE + step_ms * int 7776"
    by (simp add: range_span)
  have b: "\<forall>k<7776. DATE_RANGE_MIN_VALUE + step_ms * int k < DATE_RANGE_MAX_VALUE"
  proof (intro allI impI)
    fix k :: nat assume "k < 7776"
    then have "int k < 7776" by simp
    then have "step_ms * int k < step_ms * 7776"
      by (simp add: step_ms_val)
    then show "DATE_RANGE_MIN_VALUE + step_ms * int k < DATE_RANGE_MAX_VALUE"
      by (simp only: range_span add_strict_left_mono)
  qed
  show ?thesis
    unfolding randomDateTimePoints_def clone_def
    using points_loop_unroll [OF a b, of "[]"] by simp
qed

lemma sample_minutes: "minutes (DATE_RANGE_MIN_VALUE + step_ms * int k) = (5 * int k) mod 60"
proof -
  have "DATE_RANGE_MIN_VALUE + step_ms * int k = (21211200 + 5 * int k) * ms_per_minute"
    by (simp add: range_min_ms step_ms_val ms_per_minute_def)
  then have "(DATE_RANGE_MIN_VALUE + step_ms * int k) div ms_per_minute = 21211200 + 5 * int k"
    by (simp add: ms_per_minute_def)
  moreover have "(353520 * 60 + 5 * int k) mod 60 = (5 * int k) mod 60"
    by (simp only: mod_mult_self3)
  ultimately show ?thesis
    by (simp add: minutes_def)
qed

lemma sample_hours: "hours (DATE_RANGE_MIN_VALUE + step_ms * int k) = (int k div 12) mod 24"
proof -
  have "DATE_RANGE_MIN_VALUE + step_ms * int k = (4242240 + int k) * 300000"
    by (simp add: range_min_ms step_ms_val)
  then have "(DATE_RANGE_MIN_VALUE + step_ms * int k) div ms_per_hour
           = ((4242240 + int k) * 300000) div (12 * 300000)"
    by (simp add: ms_per_hour_def)
  also have "\<dots> = (4242240 + int k) div 12"
    by (simp only: div_mult_mult2)
  also have "\<dots> = (353520 * 12 + int k) div 12"
    by simp
  also have "\<dots> = 353520 + int k div 12"
    by (simp only: div_mult_self3)
  finally have "hours (DATE_RANGE_MIN_VALUE + step_ms * int k) = (353520 + int k div 12) mod 24"
    by (simp add: hours_def)
  also have "\<dots> = (14730 * 24 + int k div 12) mod 24"
    by simp
  also have "\<dots> = (int k div 12) mod 24"
    by (simp only: mod_mult_self3)
  finally show ?thesis .
qed

lemma sample_value:
  "value (sample_point (DATE_RANGE_MIN_VALUE + step_ms * int k))
     = 180 * ((int k div 12) mod 24) + (5 * int k) mod 60"
  by (simp add: sample_point_def sample_hours sample_minutes)

lemma sample_value_bounds:
  "0 \<le> value (sample_point (DATE_RANGE_MIN_VALUE + step_ms * int k))"
  "value (sample_point (DATE_RANGE_MIN_VALUE + step_ms * int k)) \<le> 4195"
proof -
  have h: "0 \<le> (int k div 12) mod 24" "(int k div 12) mod 24 \<le> 23" by simp_all
  have m: "0 \<le> (5 * int k) mod 60" "(5 * int k) mod 60 \<le> 55" by presburger+
  show "0 \<le> value (sample_point (DATE_RANGE_MIN_VALUE + step_ms * int k))"
    using h m by (simp add: sample_value)
  show "value (sample_point (DATE_RANGE_MIN_VALUE + step_ms * int k)) \<le> 4195"
    using h m by (simp add: sample_value)
qed

lemma nth_closed:
  "k < 7776 \<Longrightarrow> randomDateTimePoints ! k = sample_point (DATE_RANGE_MIN_VALUE + step_ms * int k)"
  by (simp add: randomDateTimePoints_closed del: upt_Suc)

lemma length_closed: "length randomDateTimePoints = 7776"
  by (simp add: randomDateTimePoints_closed del: upt_Suc)

section \<open>Facts about the series in a time zone\<close>

declare points_loop_in.simps [simp del]

declare spec_series_in.simps [simp del]

lemma points_loop_in_unroll:
  "DATE_RANGE_MAX_VALUE_in z \<le> r + step_ms * int n \<Longrightarrow>
   (\<forall>k<n. r + step_ms * int k < DATE_RANGE_MAX_VALUE_in z) \<Longrightarrow>
   points_loop_in z r acc = acc @ map (\<lambda>k. sample_point_in z (r + step_ms * int k)) [0..<n]"
proof (induction n arbitrary: r acc)
  case 0
  then show ?case
    by (subst points_loop_in.simps) (simp add: isBefore_def)
next
  case (Suc n)
  from Suc.prems(2) have lt: "r < DATE_RANGE_MAX_VALUE_in z"
    by (metis add.right_neutral mult_zero_right of_nat_0 zero_less_Suc)
  let ?r' = "add_minutes r SAMPLES_EVERY_MINUTE"
  have r': "?r' = r + step_ms"
    by (simp add: add_minutes_def step_ms_def)
  have a: "DATE_RANGE_MAX_VALUE_in z \<le> ?r' + step_ms * int n"
    using Suc.prems(1) by (simp add: r' algebra_simps)
  have b: "\<forall>k<n. ?r' + step_ms * int k < DATE_RANGE_MAX_VALUE_in z"
  proof (intro allI impI)
    fix k assume "k < n"
    then have "Suc k < Suc n" by simp
    from Suc.prems(2) [rule_format, OF this]
    show "?r' + step_ms * int k < DATE_RANGE_MAX_VALUE_in z"
      by (simp add: r' algebra_simps)
  qed
  have "points_loop_in z r acc = points_loop_in z ?r' (acc @ [sample_point_in z r])"
    using lt by (subst points_loop_in.simps) (simp add: isBefore_def)
  also have "\<dots> = (acc @ [sample_point_in z r])
                      @ map (\<lambda>k. sample_point_in z (?r' + step_ms * int k)) [0..<n]"
    by (rule Suc.IH [OF a b])
  also have "map (\<lambda>k. sample_point_in z (?r' + step_ms * int k)) [0..<n]
           = map (\<lambda>k. sample_point_in z (r + step_ms * int k)) (map Suc [0..<n])"
    by (simp add: r' algebra_simps)
  also have "map Suc [0..<n] = [Suc 0..<Suc n]"
    by (rule map_Suc_upt)
  finally show ?case
    by (simp add: upt_conv_Cons del: upt_Suc)
qed

lemma points_loop_in_spec_series:
  "points_loop_in z r acc = acc @ spec_series_in z r (DATE_RANGE_MAX_VALUE_in z)"
proof (induction z r acc rule: points_loop_in.induct)
  case (1 z r acc)
  show ?case
  proof (cases "isBefore r (DATE_RANGE_MAX_VALUE_in z)")
    case True
    then have "points_loop_in z r acc
        = (acc @ [sample_point_in z r])
            @ spec_series_in z (add_minutes r SAMPLES_EVERY_MINUTE) (DATE_RANGE_MAX_VALUE_in z)"
      using "1.IH" by (subst points_loop_in.simps) simp
    moreover have "spec_series_in z r (DATE_RANGE_MAX_VALUE_in z)
        = sample_point_in z r
            # spec_series_in z (add_minutes r SAMPLES_EVERY_MINUTE) (DATE_RANGE_MAX_VALUE_in z)"
      using True
      by (subst spec_series_in.simps)
         (simp add: isBefore_def sample_point_in_def clone_def add_minutes_def
            SAMPLES_EVERY_MINUTE_def)
    ultimately show ?thesis by simp
  next
    case False
    then show ?thesis
      by (subst points_loop_in.simps, subst spec_series_in.simps) (simp add: isBefore_def)
  qed
qed

lemma window_dates:
  "moment_ymd 2010 4 30 = 1272585600000" "moment_ymd 2010 5 1 = 1272672000000"
  "moment_ymd 2010 5 28 = 1275004800000" "moment_ymd 2010 5 29 = 1275091200000"
  "moment_ymd 2010 5 9 = 1273363200000"
  by (simp_all add: moment_ymd_def days_from_civil_def ms_per_day_def)

lemma fixed_offset_constants:
  assumes z: "\<forall>u. moment_ymd 2010 4 30 \<le> u \<and> u \<le> moment_ymd 2010 5 29 \<longrightarrow> z u = k"
    and k: "\<bar>k\<bar> \<le> ms_per_day"
  shows "DATE_RANGE_MIN_VALUE_in z = DATE_RANGE_MIN_VALUE - k"
    and "DATE_RANGE_MAX_VALUE_in z = DATE_RANGE_MAX_VALUE - k"
proof -
  have kk: "- 86400000 \<le> k" "k \<le> 86400000"
    using k by (simp_all add: ms_per_day_def abs_le_iff)
  have w: "z u = k" if "1272585600000 \<le> u" "u \<le> 1275091200000" for u
    using z that by (simp add: window_dates)
  have a: "z 1272672000000 = k" by (rule w) simp_all
  have b: "z (1272672000000 - k) = k" by (rule w) (use kk in simp_all)
  have c: "z 1275004800000 = k" by (rule w) simp_all
  have d: "z (1275004800000 - k) = k" by (rule w) (use kk in simp_all)
  show "DATE_RANGE_MIN_VALUE_in z = DATE_RANGE_MIN_VALUE - k"
    by (simp add: DATE_RANGE_MIN_VALUE_in_def moment_ymd_in_def local_to_instant_def
        window_dates range_min_ms a b)
  show "DATE_RANGE_MAX_VALUE_in z = DATE_RANGE_MAX_VALUE - k"
    by (simp add: DATE_RANGE_MAX_VALUE_in_def moment_ymd_in_def local_to_instant_def
        window_dates range_max_ms c d)
qed

lemma fixed_offset_sample:
  assumes z: "\<forall>u. moment_ymd 2010 4 30 \<le> u \<and> u \<le> moment_ymd 2010 5 29 \<longrightarrow> z u = k"
    and k: "\<bar>k\<bar> \<le> ms_per_day"
    and i: "i < 7776"
  shows "sample_point_in z (DATE_RANGE_MIN_VALUE_in z + step_ms * int i)
           = \<lparr>time = DATE_RANGE_MIN_VALUE - k + step_ms * int i,
              value = value (sample_point (DATE_RANGE_MIN_VALUE + step_ms * int i))\<rparr>"
proof -
  have kk: "- 86400000 \<le> k" "k \<le> 86400000"
    using k by (simp_all add: ms_per_day_def abs_le_iff)
  let ?u = "DATE_RANGE_MIN_VALUE - k + step_ms * int i"
  have i': "0 \<le> int i" "int i \<le> 7775" using i by simp_all
  have s: "0 \<le> step_ms * int i" "step_ms * int i \<le> 2332500000"
    using i' by (simp_all add: step_ms_val)
  have "moment_ymd 2010 4 30 \<le> ?u \<and> ?u \<le> moment_ymd 2010 5 29"
    using kk s by (simp add: window_dates range_min_ms)
  with z have zu: "z ?u = k" by blast
  have e: "?u + k = DATE_RANGE_MIN_VALUE + step_ms * int i" by simp
  show ?thesis
    by (simp add: sample_point_in_def sample_point_def hours_in_def minutes_in_def
        hours_def minutes_def clone_def fixed_offset_constants [OF z k] zu e)
qed

lemma fixed_offset_closed:
  assumes z: "\<forall>u. moment_ymd 2010 4 30 \<le> u \<and> u \<le> moment_ymd 2010 5 29 \<longrightarrow> z u = k"
    and k: "\<bar>k\<bar> \<le> ms_per_day"
  shows "randomDateTimePoints_in z =
     map (\<lambda>i. sample_point_in z (DATE_RANGE_MIN_VALUE_in z + step_ms * int i)) [0..<7776]"
proof -
  note c = fixed_offset_constants [OF z k]
  have a: "DATE_RANGE_MAX_VALUE_in z \<le> DATE_RANGE_MIN_VALUE_in z + step_ms * int 7776"
    by (simp add: c range_span)
  have b: "\<forall>i<7776. DATE_RANGE_MIN_VALUE_in z + step_ms * int i < DATE_RANGE_MAX_VALUE_in z"
  proof (intro allI impI)
    fix i :: nat assume "i < 7776"
    then have "int i < 7776" by simp
    then have "step_ms * int i < step_ms * 7776"
      by (simp add: step_ms_val)
    then show "DATE_RANGE_MIN_VALUE_in z + step_ms * int i < DATE_RANGE_MAX_VALUE_in z"
      by (simp add: c range_span)
  qed
  show ?thesis
    unfolding randomDateTimePoints_in_def clone_def
    using points_loop_in_unroll [OF a b, of "[]"] by simp
qed

lemma fixed_offset_wall_clock:
  assumes z: "\<forall>u. moment_ymd 2010 4 30 \<le> u \<and> u \<le> moment_ymd 2010 5 29 \<longrightarrow> z u = k"
    and k: "\<bar>k\<bar> \<le> ms_per_day"
  shows "map (\<lambda>p. p\<lparr>time := time p + k\<rparr>) (randomDateTimePoints_in z) = randomDateTimePoints"
proof -
  have "map (\<lambda>p. p\<lparr>time := time p + k\<rparr>) (randomDateTimePoints_in z)
      = map (\<lambda>i. (sample_point_in z (DATE_RANGE_MIN_VALUE_in z + step_ms * int i))
                    \<lparr>time := time (sample_point_in z (DATE_RANGE_MIN_VALUE_in z + step_ms * int i)) + k\<rparr>)
          [0..<7776]"
    by (simp only: fixed_offset_closed [OF z k] map_map comp_def)
  also have "\<dots> = map (\<lambda>i. sample_point (DATE_RANGE_MIN_VALUE + step_ms * int i)) [0..<7776]"
  proof (rule map_cong [OF refl])
    fix i assume "i \<in> set [0..<7776]"
    then have i: "i < 7776" by simp
    show "(sample_point_in z (DATE_RANGE_MIN_VALUE_in z + step_ms * int i))
            \<lparr>time := time (sample_point_in z (DATE_RANGE_MIN_VALUE_in z + step_ms * int i)) + k\<rparr>
          = sample_point (DATE_RANGE_MIN_VALUE + step_ms * int i)"
      by (simp add: fixed_offset_sample [OF z k i]) (simp add: sample_point_def clone_def)
  qed
  finally show ?thesis
    by (simp only: randomDateTimePoints_closed)
qed

lemma fixed_offset_nth:
  assumes z: "\<forall>u. moment_ymd 2010 4 30 \<le> u \<and> u \<le> moment_ymd 2010 5 29 \<longrightarrow> z u = k"
    and k: "\<bar>k\<bar> \<le> ms_per_day"
    and i: "i < 7776"
  shows "randomDateTimePoints_in z ! i
           = \<lparr>time = DATE_RANGE_MIN_VALUE - k + step_ms * int i,
              value = 180 * ((int i div 12) mod 24) + (5 * int i) mod 60\<rparr>"
  using i
  by (simp add: fixed_offset_closed [OF z k] fixed_offset_sample [OF z k i] sample_value
      del: upt_Suc)

section \<open>Facts about the reducer\<close>

lemma mid_dates:
  "moment_ymd 2010 5 3 = 1272844800000" "moment_ymd 2010 5 5 = 1273017600000"
  "moment_ymd 2010 5 10 = 1273449600000" "moment_ymd 2010 5 2 = 1272758400000"
  "moment_ymd 2011 1 1 = 1293840000000" "moment_ymd 2009 1 1 = 1230768000000"
  by (simp_all add: moment_ymd_def days_from_civil_def ms_per_day_def)

section \<open>Facts about invalid moments\<close>

lemma clone_any_id: "clone_any m = m"
  by (cases m) (simp_all add: clone_def)

lemma reducer_any_lift:
  "graphScreenReducer_any (lift_state s) (lift_action a) = lift_state (graphScreenReducer s a)"
  by (cases a)
     (simp_all add: changeDateFromValue_any_def changeDateFromValue_def
        changeDateToValue_any_def changeDateToValue_def lift_state_def clone_def)

lemma reachable_lift: "reachable s \<Longrightarrow> reachable_any (lift_state s)"
proof (induction rule: reachable.induct)
  case reachable_init
  have "lift_state initialState = initialState_any"
    by (simp add: lift_state_def initialState_def initialState_any_def)
  then show ?case by (simp add: reachable_any_init)
next
  case (reachable_step s a)
  from reachable_step.IH
  have "reachable_any (graphScreenReducer_any (lift_state s) (lift_action a))"
    by (rule reachable_any_step)
  then show ?case by (simp only: reducer_any_lift)
qed

lemma reducer_any_keeps_guards:
  assumes "\<not> isBefore_any (dateFrom_any s) (ValidAt DATE_RANGE_MIN_VALUE)"
    and "\<not> isAfter_any (dateTo_any s) (ValidAt DATE_RANGE_MAX_VALUE)"
  shows "\<not> isBefore_any (dateFrom_any (graphScreenReducer_any s a)) (ValidAt DATE_RANGE_MIN_VALUE)
       \<and> \<not> isAfter_any (dateTo_any (graphScreenReducer_any s a)) (ValidAt DATE_RANGE_MAX_VALUE)"
  using assms
  by (cases a)
     (simp_all add: changeDateFromValue_any_def changeDateToValue_any_def clone_any_id)

lemma reachable_any_guards:
  "reachable_any s \<Longrightarrow>
     \<not> isBefore_any (dateFrom_any s) (ValidAt DATE_RANGE_MIN_VALUE)
     \<and> \<not> isAfter_any (dateTo_any s) (ValidAt DATE_RANGE_MAX_VALUE)"
proof (induction rule: reachable_any.induct)
  case reachable_any_init
  show ?case
    by (simp add: initialState_any_def DATE_WINDOW_FROM_VALUE_def DATE_WINDOW_TO_VALUE_def
        isBefore_def isAfter_def range_min_ms range_max_ms mid_dates)
next
  case (reachable_any_step s a)
  then show ?case by (simp add: reducer_any_keeps_guards)
qed

section \<open>Facts about the store\<close>

lemma deref_append: "deref h r = Some ob \<Longrightarrow> deref (h @ xs) r = Some ob"
  by (auto simp: deref_def nth_append split: if_splits)

lemma deref_fresh: "deref (h @ [ob]) (length h) = Some ob"
  by (simp add: deref_def)

lemma valueOf_append: "valueOf h r = Some t \<Longrightarrow> valueOf (h @ xs) r = Some t"
  by (auto simp: valueOf_def deref_append split: option.splits obj.splits)

lemma point_of_append: "point_of h r = Some p \<Longrightarrow> point_of (h @ xs) r = Some p"
  by (auto simp: point_of_def deref_append valueOf_append split: option.splits obj.splits)

lemma those_points_append:
  "those (map (point_of h) es) = Some ps \<Longrightarrow> those (map (point_of (h @ xs)) es) = Some ps"
proof (induction es arbitrary: ps)
  case Nil
  then show ?case by simp
next
  case (Cons e es)
  then show ?case
    by (auto simp: point_of_append split: option.splits)
qed

lemma points_of_append: "points_of h r = Some ps \<Longrightarrow> points_of (h @ xs) r = Some ps"
  by (auto simp: points_of_def deref_append those_points_append split: option.splits obj.splits)

lemma state_fields_append:
  "state_fields h r = Some x \<Longrightarrow> state_fields (h @ xs) r = Some x"
  by (auto simp: state_fields_def deref_append split: option.splits obj.splits)

lemma state_of_append: "state_of h r = Some S \<Longrightarrow> state_of (h @ xs) r = Some S"
  by (auto simp: state_of_def state_fields_append valueOf_append points_of_append
      split: option.splits)

lemma state_ofD:
  assumes "state_of h s = Some S"
  obtains dF dT pts es where
    "deref h s = Some (GraphScreenStateObj dF dT pts)"
    "deref h dF = Some (MomentObj (dateFrom S))"
    "deref h dT = Some (MomentObj (dateTo S))"
    "deref h pts = Some (ArrayObj es)"
    "those (map (point_of h) es) = Some (points S)"
  using assms
  by (auto simp: state_of_def state_fields_def valueOf_def points_of_def
      split: option.splits obj.splits)

lemma changeDateFromValue_ref_reject:
  assumes "valueOf h p = Some c" and "c < DATE_RANGE_MIN_VALUE"
  shows "changeDateFromValue_ref h s p = Some (h, s)"
  using assms by (simp add: changeDateFromValue_ref_def isBefore_def)

lemma changeDateToValue_ref_reject:
  assumes "valueOf h p = Some c" and "DATE_RANGE_MAX_VALUE < c"
  shows "changeDateToValue_ref h s p = Some (h, s)"
  using assms by (simp add: changeDateToValue_ref_def isAfter_def)

lemma changeDateFromValue_ref_accept:
  assumes "deref h s = Some (GraphScreenStateObj dF dT pts)"
    and "deref h dT = Some (MomentObj t)"
    and "deref h pts = Some (ArrayObj es)"
    and "valueOf h p = Some c" and "\<not> c < DATE_RANGE_MIN_VALUE"
  shows "changeDateFromValue_ref h s p =
           Some (h @ [MomentObj t, ArrayObj es, GraphScreenStateObj p (length h) (Suc (length h))],
                 Suc (Suc (length h)))"
  using assms
  by (simp add: changeDateFromValue_ref_def isBefore_def state_fields_def clone_ref_def
      lodash_clone_ref_def alloc_def clone_def lodash_clone_def deref_append)

lemma changeDateToValue_ref_accept:
  assumes "deref h s = Some (GraphScreenStateObj dF dT pts)"
    and "deref h dF = Some (MomentObj f)"
    and "deref h pts = Some (ArrayObj es)"
    and "valueOf h p = Some c" and "\<not> DATE_RANGE_MAX_VALUE < c"
  shows "changeDateToValue_ref h s p =
           Some (h @ [MomentObj f, ArrayObj es, GraphScreenStateObj (length h) p (Suc (length h))],
                 Suc (Suc (length h)))"
  using assms
  by (simp add: changeDateToValue_ref_def isAfter_def state_fields_def clone_ref_def
      lodash_clone_ref_def alloc_def clone_def lodash_clone_def deref_append)

lemma deref_new3:
  "deref (h @ [a, b, c]) (length h) = Some a"
  "deref (h @ [a, b, c]) (Suc (length h)) = Some b"
  "deref (h @ [a, b, c]) (Suc (Suc (length h))) = Some c"
  by (simp_all add: deref_def nth_append)

lemma state_of_new:
  assumes "valueOf h dF = Some f" and "valueOf h dT = Some t"
    and "points_of h pts = Some ps"
  shows "state_of (h @ [GraphScreenStateObj dF dT pts]) (length h)
           = Some \<lparr>dateFrom = f, dateTo = t, points = ps\<rparr>"
  using valueOf_append [OF assms(1), of "[GraphScreenStateObj dF dT pts]"]
    valueOf_append [OF assms(2), of "[GraphScreenStateObj dF dT pts]"]
    points_of_append [OF assms(3), of "[GraphScreenStateObj dF dT pts]"]
  by (simp add: state_of_def state_fields_def deref_fresh)

lemma changeDateFromValue_ref_accept_abs:
  assumes S: "state_of h s = Some S" and c: "valueOf h p = Some c"
    and acc: "\<not> c < DATE_RANGE_MIN_VALUE"
    and res: "changeDateFromValue_ref h s p = Some (h', s')"
  shows "state_of h' s' = Some (changeDateFromValue S c)"
proof -
  from S obtain dF dT pts es where
    f: "deref h s = Some (GraphScreenStateObj dF dT pts)"
      "deref h dF = Some (MomentObj (dateFrom S))"
      "deref h dT = Some (MomentObj (dateTo S))"
      "deref h pts = Some (ArrayObj es)"
      "those (map (point_of h) es) = Some (points S)"
    by (rule state_ofD)
  let ?h1 = "h @ [MomentObj (dateTo S), ArrayObj es]"
  let ?st = "GraphScreenStateObj p (length h) (Suc (length h))"
  from changeDateFromValue_ref_accept [OF f(1) f(3) f(4) c acc] res
  have h': "h' = ?h1 @ [?st]" and s': "s' = length ?h1"
    by simp_all
  have v1: "valueOf ?h1 p = Some c"
    using c by (rule valueOf_append)
  have v2: "valueOf ?h1 (length h) = Some (dateTo S)"
    by (simp add: valueOf_def deref_def nth_append)
  have "those (map (point_of ?h1) es) = Some (points S)"
    using f(5) by (rule those_points_append)
  then have v3: "points_of ?h1 (Suc (length h)) = Some (points S)"
    by (simp add: points_of_def deref_def nth_append)
  have "state_of (?h1 @ [?st]) (length ?h1)
          = Some \<lparr>dateFrom = c, dateTo = dateTo S, points = points S\<rparr>"
    using v1 v2 v3 by (rule state_of_new)
  then show ?thesis
    using acc by (simp add: h' s' changeDateFromValue_def isBefore_def clone_def lodash_clone_def)
qed

lemma changeDateToValue_ref_accept_abs:
  assumes S: "state_of h s = Some S" and c: "valueOf h p = Some c"
    and acc: "\<not> DATE_RANGE_MAX_VALUE < c"
    and res: "changeDateToValue_ref h s p = Some (h', s')"
  shows "state_of h' s' = Some (changeDateToValue S c)"
proof -
  from S obtain dF dT pts es where
    f: "deref h s = Some (GraphScreenStateObj dF dT pts)"
      "deref h dF = Some (MomentObj (dateFrom S))"
      "deref h dT = Some (MomentObj (dateTo S))"
      "deref h pts = Some (ArrayObj es)"
      "those (map (point_of h) es) = Some (points S)"
    by (rule state_ofD)
  let ?h1 = "h @ [MomentObj (dateFrom S), ArrayObj es]"
  let ?st = "GraphScreenStateObj (length h) p (Suc (length h))"
  from changeDateToValue_ref_accept [OF f(1) f(2) f(4) c acc] res
  have h': "h' = ?h1 @ [?st]" and s': "s' = length ?h1"
    by simp_all
  have v1: "valueOf ?h1 p = Some c"
    using c by (rule valueOf_append)
  have v2: "valueOf ?h1 (length h) = Some (dateFrom S)"
    by (simp add: valueOf_def deref_def nth_append)
  have "those (map (point_of ?h1) es) = Some (points S)"
    using f(5) by (rule those_points_append)
  then have v3: "points_of ?h1 (Suc (length h)) = Some (points S)"
    by (simp add: points_of_def deref_def nth_append)
  have "state_of (?h1 @ [?st]) (length ?h1)
          = Some \<lparr>dateFrom = dateFrom S, dateTo = c, points = points S\<rparr>"
    using v2 v1 v3 by (rule state_of_new)
  then show ?thesis
    using acc by (simp add: h' s' changeDateToValue_def isAfter_def clone_def lodash_clone_def)
qed

lemma changeDateFromValue_ref_refines:
  assumes S: "state_of h s = Some S" and c: "valueOf h p = Some c"
  shows "\<exists>h' s'. changeDateFromValue_ref h s p = Some (h', s')
           \<and> state_of h' s' = Some (changeDateFromValue S c)"
proof (cases "c < DATE_RANGE_MIN_VALUE")
  case True
  then show ?thesis
    using S changeDateFromValue_ref_reject [OF c True, of s]
    by (simp add: changeDateFromValue_def isBefore_def)
next
  case False
  from S obtain dF dT pts es where
    f: "deref h s = Some (GraphScreenStateObj dF dT pts)"
      "deref h dF = Some (MomentObj (dateFrom S))"
      "deref h dT = Some (MomentObj (dateTo S))"
      "deref h pts = Some (ArrayObj es)"
      "those (map (point_of h) es) = Some (points S)"
    by (rule state_ofD)
  note r = changeDateFromValue_ref_accept [OF f(1) f(3) f(4) c False]
  from changeDateFromValue_ref_accept_abs [OF S c False r] r
  show ?thesis by blast
qed

lemma changeDateToValue_ref_refines:
  assumes S: "state_of h s = Some S" and c: "valueOf h p = Some c"
  shows "\<exists>h' s'. changeDateToValue_ref h s p = Some (h', s')
           \<and> state_of h' s' = Some (changeDateToValue S c)"
proof (cases "DATE_RANGE_MAX_VALUE < c")
  case True
  then show ?thesis
    using S changeDateToValue_ref_reject [OF c True, of s]
    by (simp add: changeDateToValue_def isAfter_def)
next
  case False
  from S obtain dF dT pts es where
    f: "deref h s = Some (GraphScreenStateObj dF dT pts)"
      "deref h dF = Some (MomentObj (dateFrom S))"
      "deref h dT = Some (MomentObj (dateTo S))"
      "deref h pts = Some (ArrayObj es)"
      "those (map (point_of h) es) = Some (points S)"
    by (rule state_ofD)
  note r = changeDateToValue_ref_accept [OF f(1) f(2) f(4) c False]
  from changeDateToValue_ref_accept_abs [OF S c False r] r
  show ?thesis by blast
qed

lemma heap0_facts:
  "state_of heap0 5 = Some state0"
  "state_fields heap0 5 = Some (0, 1, 4)"
  "valueOf heap0 6 = Some (moment_ymd 2010 5 10)"
  "valueOf heap0 7 = Some (moment_ymd 2010 4 30)"
  "valueOf heap0 8 = Some (moment_ymd 2010 6 1)"
  "valueOf heap0 9 = Some (moment_ymd 2011 1 1)"
  by (simp_all add: heap0_def state0_def state_of_def state_fields_def valueOf_def points_of_def
      point_of_def deref_def)

section \<open>Window commands\<close>

text \<open>
  C1. For every candidate timestamp c with RANGE_MIN <= c <= RANGE_MAX and every state s,
  the window-start command returns a state whose dateFrom is exactly c and whose dateTo
  and points equal those of s.
\<close>

theorem setWindowStart_accepts:
  assumes "DATE_RANGE_MIN_VALUE \<le> c" and "c \<le> DATE_RANGE_MAX_VALUE"
  shows "dateFrom (changeDateFromValue s c) = c
       \<and> dateTo (changeDateFromValue s c) = dateTo s
       \<and> points (changeDateFromValue s c) = points s"
  using assms by (simp add: changeDateFromValue_def isBefore_def clone_def lodash_clone_def)

theorem setWindowStart_accepts_witness:
  "DATE_RANGE_MIN_VALUE \<le> moment_ymd 2010 5 10
   \<and> moment_ymd 2010 5 10 \<le> DATE_RANGE_MAX_VALUE
   \<and> dateFrom (changeDateFromValue initialState (moment_ymd 2010 5 10)) = moment_ymd 2010 5 10
   \<and> dateTo (changeDateFromValue initialState (moment_ymd 2010 5 10)) = DATE_WINDOW_TO_VALUE
   \<and> points (changeDateFromValue initialState (moment_ymd 2010 5 10)) = randomDateTimePoints"
proof -
  have lo: "DATE_RANGE_MIN_VALUE \<le> moment_ymd 2010 5 10"
    by (simp add: DATE_RANGE_MIN_VALUE_def moment_ymd_def days_from_civil_def ms_per_day_def)
  have hi: "moment_ymd 2010 5 10 \<le> DATE_RANGE_MAX_VALUE"
    by (simp add: DATE_RANGE_MAX_VALUE_def moment_ymd_def days_from_civil_def ms_per_day_def)
  show ?thesis
    using lo hi setWindowStart_accepts [OF lo hi, of initialState]
    by (simp add: initialState_def)
qed

text \<open>
  C2. For every candidate timestamp c strictly before RANGE_MIN and every state s, the
  window-start command returns the current state unchanged: same dateFrom, same dateTo,
  same points.
\<close>

theorem setWindowStart_rejects:
  assumes "c < DATE_RANGE_MIN_VALUE"
  shows "changeDateFromValue s c = s
       \<and> dateFrom (changeDateFromValue s c) = dateFrom s
       \<and> dateTo (changeDateFromValue s c) = dateTo s
       \<and> points (changeDateFromValue s c) = points s"
  using assms by (simp add: changeDateFromValue_def isBefore_def)

theorem setWindowStart_rejects_witness:
  "moment_ymd 2010 4 30 < DATE_RANGE_MIN_VALUE
   \<and> changeDateFromValue initialState (moment_ymd 2010 4 30) = initialState
   \<and> dateFrom (changeDateFromValue initialState (moment_ymd 2010 4 30)) = moment_ymd 2010 5 3"
proof -
  have lo: "moment_ymd 2010 4 30 < DATE_RANGE_MIN_VALUE"
    by (simp add: DATE_RANGE_MIN_VALUE_def moment_ymd_def days_from_civil_def ms_per_day_def)
  show ?thesis
    using lo setWindowStart_rejects [OF lo, of initialState]
    by (simp add: initialState_def DATE_WINDOW_FROM_VALUE_def)
qed

text \<open>
  C3. For every candidate timestamp c strictly after RANGE_MAX and every state s, the
  window-end command returns the current state unchanged (dateTo in particular); for
  every other candidate it returns a state with dateTo = c and with dateFrom and points
  carried over.
\<close>

theorem setWindowEnd_guard:
  "(DATE_RANGE_MAX_VALUE < c \<longrightarrow>
      changeDateToValue s c = s \<and> dateTo (changeDateToValue s c) = dateTo s)
   \<and> (\<not> DATE_RANGE_MAX_VALUE < c \<longrightarrow>
      dateTo (changeDateToValue s c) = c
      \<and> dateFrom (changeDateToValue s c) = dateFrom s
      \<and> points (changeDateToValue s c) = points s)"
  by (simp add: changeDateToValue_def isAfter_def clone_def lodash_clone_def)

theorem setWindowEnd_guard_witness:
  "DATE_RANGE_MAX_VALUE < moment_ymd 2010 6 1
   \<and> changeDateToValue initialState (moment_ymd 2010 6 1) = initialState
   \<and> dateTo (changeDateToValue initialState (moment_ymd 2010 6 1)) = moment_ymd 2010 5 5
   \<and> \<not> DATE_RANGE_MAX_VALUE < moment_ymd 2010 5 20
   \<and> dateTo (changeDateToValue initialState (moment_ymd 2010 5 20)) = moment_ymd 2010 5 20
   \<and> dateFrom (changeDateToValue initialState (moment_ymd 2010 5 20)) = moment_ymd 2010 5 3
   \<and> points (changeDateToValue initialState (moment_ymd 2010 5 20)) = randomDateTimePoints"
proof -
  have hi: "DATE_RANGE_MAX_VALUE < moment_ymd 2010 6 1"
    by (simp add: DATE_RANGE_MAX_VALUE_def moment_ymd_def days_from_civil_def ms_per_day_def)
  have mid: "\<not> DATE_RANGE_MAX_VALUE < moment_ymd 2010 5 20"
    by (simp add: DATE_RANGE_MAX_VALUE_def moment_ymd_def days_from_civil_def ms_per_day_def)
  show ?thesis
    using hi mid
      setWindowEnd_guard [of "moment_ymd 2010 6 1" initialState]
      setWindowEnd_guard [of "moment_ymd 2010 5 20" initialState]
    by (simp add: initialState_def DATE_WINDOW_FROM_VALUE_def DATE_WINDOW_TO_VALUE_def)
qed

section \<open>The generated series\<close>

text \<open>
  C5, as stated: for RANGE_MIN = 2010-05-01 and RANGE_MAX = 2010-05-28 the generated
  sequence has exactly 7776 entries. Both constants are local midnights and the loop
  advances in real time, so the count depends on the time zone: in a zone that moves its
  clocks an hour forward on 2010-05-09 the range is an hour short of 27 days and the
  generator gives 7764 points.
\<close>

theorem points_series_zone_counterexample:
  "DATE_RANGE_MIN_VALUE_in zone_spring_forward = moment_ymd 2010 5 1
   \<and> DATE_RANGE_MAX_VALUE_in zone_spring_forward = moment_ymd 2010 5 28 - ms_per_hour
   \<and> hours_in zone_spring_forward (DATE_RANGE_MAX_VALUE_in zone_spring_forward) = 0
   \<and> minutes_in zone_spring_forward (DATE_RANGE_MAX_VALUE_in zone_spring_forward) = 0
   \<and> length (randomDateTimePoints_in zone_spring_forward) = 7764
   \<and> length (randomDateTimePoints_in zone_spring_forward) \<noteq> 7776"
proof -
  have lo: "DATE_RANGE_MIN_VALUE_in zone_spring_forward = 1272672000000"
    by (simp add: DATE_RANGE_MIN_VALUE_in_def moment_ymd_in_def local_to_instant_def
        zone_spring_forward_def window_dates ms_per_hour_def)
  have hi: "DATE_RANGE_MAX_VALUE_in zone_spring_forward = 1275001200000"
    by (simp add: DATE_RANGE_MAX_VALUE_in_def moment_ymd_in_def local_to_instant_def
        zone_spring_forward_def window_dates ms_per_hour_def)
  have h: "hours_in zone_spring_forward 1275001200000 = 0"
    by (simp add: hours_in_def zone_spring_forward_def window_dates ms_per_hour_def)
  have m: "minutes_in zone_spring_forward 1275001200000 = 0"
    by (simp add: minutes_in_def zone_spring_forward_def window_dates ms_per_hour_def
        ms_per_minute_def)
  have a: "DATE_RANGE_MAX_VALUE_in zone_spring_forward
             \<le> DATE_RANGE_MIN_VALUE_in zone_spring_forward + step_ms * int 7764"
    by (simp add: lo hi step_ms_val)
  have b: "\<forall>i<7764. DATE_RANGE_MIN_VALUE_in zone_spring_forward + step_ms * int i
                       < DATE_RANGE_MAX_VALUE_in zone_spring_forward"
  proof (intro allI impI)
    fix i :: nat assume "i < 7764"
    then have "int i < 7764" by simp
    then show "DATE_RANGE_MIN_VALUE_in zone_spring_forward + step_ms * int i
                 < DATE_RANGE_MAX_VALUE_in zone_spring_forward"
      by (simp add: lo hi step_ms_val)
  qed
  have len: "length (randomDateTimePoints_in zone_spring_forward) = 7764"
    unfolding randomDateTimePoints_in_def clone_def
    by (simp add: points_loop_in_unroll [OF a b, of "[]"] del: upt_Suc)
  show ?thesis
    using lo hi h m len by (simp add: window_dates ms_per_hour_def)
qed

text \<open>
  C5, amended: in every time zone the points generated at initialization are the sequence
  obtained by starting at RANGE_MIN and, while the current timestamp is strictly before
  RANGE_MAX, emitting a point with time = current and value = 180 * hourOfDay(current) +
  minuteOfHour(current) and advancing by 5 minutes; the sequence is a fixed value of the
  constants and the zone. In a time zone whose offset from UTC is constant from the day
  before RANGE_MIN = 2010-05-01 to the day after RANGE_MAX = 2010-05-28, it has exactly
  7776 entries, the first at 2010-05-01T00:00 local time with value 0 and the second five
  minutes later with value 5; read on the wall clock it is the series of the first
  section.
\<close>

theorem points_series_in_zone:
  "randomDateTimePoints_in z
     = spec_series_in z (DATE_RANGE_MIN_VALUE_in z) (DATE_RANGE_MAX_VALUE_in z)
   \<and> ((\<forall>u. moment_ymd 2010 4 30 \<le> u \<and> u \<le> moment_ymd 2010 5 29 \<longrightarrow> z u = k)
        \<and> \<bar>k\<bar> \<le> ms_per_day \<longrightarrow>
        DATE_RANGE_MIN_VALUE_in z = moment_ymd 2010 5 1 - k
      \<and> DATE_RANGE_MAX_VALUE_in z = moment_ymd 2010 5 28 - k
      \<and> randomDateTimePoints_in z =
          map (\<lambda>i. \<lparr>time = DATE_RANGE_MIN_VALUE_in z + 5 * ms_per_minute * int i,
                    value = 180 * hours_in z (DATE_RANGE_MIN_VALUE_in z + 5 * ms_per_minute * int i)
                            + minutes_in z (DATE_RANGE_MIN_VALUE_in z + 5 * ms_per_minute * int i)\<rparr>)
            [0..<7776]
      \<and> length (randomDateTimePoints_in z) = 7776
      \<and> randomDateTimePoints_in z ! 0 = \<lparr>time = moment_ymd 2010 5 1 - k, value = 0\<rparr>
      \<and> randomDateTimePoints_in z ! 1
          = \<lparr>time = add_minutes (moment_ymd 2010 5 1 - k) 5, value = 5\<rparr>
      \<and> map (\<lambda>p. p\<lparr>time := time p + k\<rparr>) (randomDateTimePoints_in z) = randomDateTimePoints)"
proof (intro conjI impI)
  show "randomDateTimePoints_in z
     = spec_series_in z (DATE_RANGE_MIN_VALUE_in z) (DATE_RANGE_MAX_VALUE_in z)"
    by (simp add: randomDateTimePoints_in_def clone_def points_loop_in_spec_series)
next
  assume "(\<forall>u. moment_ymd 2010 4 30 \<le> u \<and> u \<le> moment_ymd 2010 5 29 \<longrightarrow> z u = k)
        \<and> \<bar>k\<bar> \<le> ms_per_day"
  then have z: "\<forall>u. moment_ymd 2010 4 30 \<le> u \<and> u \<le> moment_ymd 2010 5 29 \<longrightarrow> z u = k"
    and k: "\<bar>k\<bar> \<le> ms_per_day"
    by blast+
  note c = fixed_offset_constants [OF z k]
  show lo: "DATE_RANGE_MIN_VALUE_in z = moment_ymd 2010 5 1 - k"
    by (simp add: c DATE_RANGE_MIN_VALUE_def)
  show "DATE_RANGE_MAX_VALUE_in z = moment_ymd 2010 5 28 - k"
    by (simp add: c DATE_RANGE_MAX_VALUE_def)
  show "randomDateTimePoints_in z =
          map (\<lambda>i. \<lparr>time = DATE_RANGE_MIN_VALUE_in z + 5 * ms_per_minute * int i,
                    value = 180 * hours_in z (DATE_RANGE_MIN_VALUE_in z + 5 * ms_per_minute * int i)
                            + minutes_in z (DATE_RANGE_MIN_VALUE_in z + 5 * ms_per_minute * int i)\<rparr>)
            [0..<7776]"
    by (simp only: fixed_offset_closed [OF z k] sample_point_in_def clone_def step_ms_def
        SAMPLES_EVERY_MINUTE_def)
  show "length (randomDateTimePoints_in z) = 7776"
    by (simp add: fixed_offset_closed [OF z k] del: upt_Suc)
  show "randomDateTimePoints_in z ! 0 = \<lparr>time = moment_ymd 2010 5 1 - k, value = 0\<rparr>"
    using fixed_offset_nth [OF z k, of 0] by (simp add: DATE_RANGE_MIN_VALUE_def)
  show "randomDateTimePoints_in z ! 1
          = \<lparr>time = add_minutes (moment_ymd 2010 5 1 - k) 5, value = 5\<rparr>"
    using fixed_offset_nth [OF z k, of 1]
    by (simp add: DATE_RANGE_MIN_VALUE_def add_minutes_def step_ms_def SAMPLES_EVERY_MINUTE_def)
  show "map (\<lambda>p. p\<lparr>time := time p + k\<rparr>) (randomDateTimePoints_in z) = randomDateTimePoints"
    by (rule fixed_offset_wall_clock [OF z k])
qed

theorem points_series_in_zone_witness:
  "length (randomDateTimePoints_in (zone_fixed 7200000)) = 7776
   \<and> randomDateTimePoints_in (zone_fixed 7200000) ! 0
       = \<lparr>time = moment_ymd 2010 5 1 - 7200000, value = 0\<rparr>
   \<and> randomDateTimePoints_in (zone_fixed 7200000) ! 1
       = \<lparr>time = add_minutes (moment_ymd 2010 5 1 - 7200000) 5, value = 5\<rparr>
   \<and> hours_in (zone_fixed 7200000) (moment_ymd 2010 5 1 - 7200000) = 0
   \<and> minutes_in (zone_fixed 7200000) (moment_ymd 2010 5 1 - 7200000) = 0"
proof -
  have h: "(\<forall>u. moment_ymd 2010 4 30 \<le> u \<and> u \<le> moment_ymd 2010 5 29
                 \<longrightarrow> zone_fixed 7200000 u = 7200000)
           \<and> \<bar>7200000\<bar> \<le> ms_per_day"
    by (simp add: zone_fixed_def ms_per_day_def)
  have f: "hours_in (zone_fixed 7200000) (moment_ymd 2010 5 1 - 7200000) = 0"
    "minutes_in (zone_fixed 7200000) (moment_ymd 2010 5 1 - 7200000) = 0"
    by (simp_all add: hours_in_def minutes_in_def zone_fixed_def window_dates ms_per_hour_def
        ms_per_minute_def)
  from points_series_in_zone [of "zone_fixed 7200000" 7200000] h f
  show ?thesis by blast
qed

text \<open>
  C9. Every value in the generated points is an integer between 0 and 4195 (the maximum,
  180 * 23 + 55, is reached), and some generated values are strictly above
  SAMPLE_VALUE_MAX = 150: the constant bounds nothing.
\<close>

theorem sample_values_range:
  "(\<forall>p \<in> set randomDateTimePoints. 0 \<le> value p \<and> value p \<le> 4195)
   \<and> (\<exists>p \<in> set randomDateTimePoints. value p = 180 * 23 + 55)
   \<and> (\<exists>p \<in> set randomDateTimePoints. SAMPLE_VALUE_MAX < value p)"
proof -
  have all: "\<forall>p \<in> set randomDateTimePoints. 0 \<le> value p \<and> value p \<le> 4195"
  proof
    fix p assume "p \<in> set randomDateTimePoints"
    then obtain k where "p = sample_point (DATE_RANGE_MIN_VALUE + step_ms * int k)"
      unfolding randomDateTimePoints_closed by auto
    then show "0 \<le> value p \<and> value p \<le> 4195"
      using sample_value_bounds [of k] by simp
  qed
  have mem: "randomDateTimePoints ! 287 \<in> set randomDateTimePoints"
    by (rule nth_mem) (simp add: length_closed)
  have v: "value (randomDateTimePoints ! 287) = 4195"
    using nth_closed [of 287] sample_value [of 287] by simp
  have top: "\<exists>p \<in> set randomDateTimePoints. value p = 180 * 23 + 55"
    using mem v by (intro bexI [of _ "randomDateTimePoints ! 287"]) simp_all
  have over: "\<exists>p \<in> set randomDateTimePoints. SAMPLE_VALUE_MAX < value p"
    using mem v by (intro bexI [of _ "randomDateTimePoints ! 287"]) (simp_all add: SAMPLE_VALUE_MAX_def)
  show ?thesis using all top over by blast
qed

theorem sample_values_range_witness:
  "randomDateTimePoints ! 1 \<in> set randomDateTimePoints
   \<and> 0 \<le> value (randomDateTimePoints ! 1)
   \<and> value (randomDateTimePoints ! 1) \<le> 4195"
proof -
  have mem: "randomDateTimePoints ! 1 \<in> set randomDateTimePoints"
    by (rule nth_mem) (simp add: length_closed)
  from sample_values_range have "\<forall>p \<in> set randomDateTimePoints. 0 \<le> value p \<and> value p \<le> 4195"
    by (rule conjunct1)
  from bspec [OF this mem] mem show ?thesis by simp
qed

section \<open>Reachable windows\<close>

text \<open>
  C4, as stated: in every state reachable from the initial state by window commands, both
  dateFrom and dateTo lie within [RANGE_MIN, RANGE_MAX]. The reducer refutes it: a
  window start after RANGE_MAX is accepted, and so is a window end before RANGE_MIN.
\<close>

theorem window_in_range_counterexample:
  "reachable (graphScreenReducer initialState (CHANGE_DATE_FROM_VALUE (moment_ymd 2011 1 1)))
   \<and> \<not> dateFrom (graphScreenReducer initialState (CHANGE_DATE_FROM_VALUE (moment_ymd 2011 1 1)))
          \<le> DATE_RANGE_MAX_VALUE
   \<and> reachable (graphScreenReducer initialState (CHANGE_DATE_TO_VALUE (moment_ymd 2009 1 1)))
   \<and> \<not> DATE_RANGE_MIN_VALUE
          \<le> dateTo (graphScreenReducer initialState (CHANGE_DATE_TO_VALUE (moment_ymd 2009 1 1)))"
proof -
  have r: "reachable (graphScreenReducer initialState a)" for a
    by (rule reachable_step [OF reachable_init])
  have f: "\<not> dateFrom (graphScreenReducer initialState (CHANGE_DATE_FROM_VALUE (moment_ymd 2011 1 1)))
          \<le> DATE_RANGE_MAX_VALUE"
    by (simp add: changeDateFromValue_def isBefore_def range_min_ms range_max_ms mid_dates)
  have t: "\<not> DATE_RANGE_MIN_VALUE
          \<le> dateTo (graphScreenReducer initialState (CHANGE_DATE_TO_VALUE (moment_ymd 2009 1 1)))"
    by (simp add: changeDateToValue_def isAfter_def range_min_ms range_max_ms mid_dates)
  show ?thesis
    using r [of "CHANGE_DATE_FROM_VALUE (moment_ymd 2011 1 1)"]
      r [of "CHANGE_DATE_TO_VALUE (moment_ymd 2009 1 1)"] f t
    by blast
qed

text \<open>
  C4, amended: in every state reachable from the initial state by any finite sequence of
  window commands, whatever their payloads, the guards hold of the window: dateFrom is not
  before RANGE_MIN and dateTo is not after RANGE_MAX as \<^verbatim>\<open>isBefore\<close> and
  \<^verbatim>\<open>isAfter\<close> decide it, so a dateFrom that is a valid timestamp is at or after
  RANGE_MIN and a dateTo that is a valid timestamp is at or before RANGE_MAX. Nothing else
  bounds them: every payload that is not before RANGE_MIN, an invalid moment among them,
  is the dateFrom of a reachable state, and every payload that is not after RANGE_MAX is
  the dateTo of one. The states reachable with valid payloads alone are among these.
\<close>

theorem window_guards_hold:
  "(reachable_any s \<longrightarrow>
      \<not> isBefore_any (dateFrom_any s) (ValidAt DATE_RANGE_MIN_VALUE)
      \<and> \<not> isAfter_any (dateTo_any s) (ValidAt DATE_RANGE_MAX_VALUE)
      \<and> (dateFrom_any s = ValidAt f \<longrightarrow> DATE_RANGE_MIN_VALUE \<le> f)
      \<and> (dateTo_any s = ValidAt t \<longrightarrow> t \<le> DATE_RANGE_MAX_VALUE))
   \<and> (\<not> isBefore_any c (ValidAt DATE_RANGE_MIN_VALUE) \<longrightarrow>
      reachable_any (graphScreenReducer_any initialState_any (CHANGE_DATE_FROM_VALUE_any c))
      \<and> dateFrom_any (graphScreenReducer_any initialState_any (CHANGE_DATE_FROM_VALUE_any c)) = c)
   \<and> (\<not> isAfter_any c (ValidAt DATE_RANGE_MAX_VALUE) \<longrightarrow>
      reachable_any (graphScreenReducer_any initialState_any (CHANGE_DATE_TO_VALUE_any c))
      \<and> dateTo_any (graphScreenReducer_any initialState_any (CHANGE_DATE_TO_VALUE_any c)) = c)
   \<and> (reachable s' \<longrightarrow> reachable_any (lift_state s'))"
proof (intro conjI impI)
  assume r: "reachable_any s"
  note g = reachable_any_guards [OF r]
  from g show "\<not> isBefore_any (dateFrom_any s) (ValidAt DATE_RANGE_MIN_VALUE)" by simp
  from g show "\<not> isAfter_any (dateTo_any s) (ValidAt DATE_RANGE_MAX_VALUE)" by simp
  { assume "dateFrom_any s = ValidAt f"
    with g show "DATE_RANGE_MIN_VALUE \<le> f" by (simp add: isBefore_def) }
  { assume "dateTo_any s = ValidAt t"
    with g show "t \<le> DATE_RANGE_MAX_VALUE" by (simp add: isAfter_def) }
next
  show "reachable_any (graphScreenReducer_any initialState_any (CHANGE_DATE_FROM_VALUE_any c))"
    by (rule reachable_any_step [OF reachable_any_init])
next
  assume "\<not> isBefore_any c (ValidAt DATE_RANGE_MIN_VALUE)"
  then show "dateFrom_any (graphScreenReducer_any initialState_any (CHANGE_DATE_FROM_VALUE_any c)) = c"
    by (simp add: changeDateFromValue_any_def)
next
  show "reachable_any (graphScreenReducer_any initialState_any (CHANGE_DATE_TO_VALUE_any c))"
    by (rule reachable_any_step [OF reachable_any_init])
next
  assume "\<not> isAfter_any c (ValidAt DATE_RANGE_MAX_VALUE)"
  then show "dateTo_any (graphScreenReducer_any initialState_any (CHANGE_DATE_TO_VALUE_any c)) = c"
    by (simp add: changeDateToValue_any_def)
next
  assume "reachable s'"
  then show "reachable_any (lift_state s')" by (rule reachable_lift)
qed

theorem window_guards_hold_witness:
  "reachable_any (graphScreenReducer_any initialState_any
                    (CHANGE_DATE_FROM_VALUE_any (ValidAt (moment_ymd 2011 1 1))))
   \<and> dateFrom_any (graphScreenReducer_any initialState_any
                       (CHANGE_DATE_FROM_VALUE_any (ValidAt (moment_ymd 2011 1 1))))
        = ValidAt (moment_ymd 2011 1 1)
   \<and> DATE_RANGE_MIN_VALUE \<le> moment_ymd 2011 1 1
   \<and> dateTo_any (graphScreenReducer_any initialState_any
                     (CHANGE_DATE_FROM_VALUE_any (ValidAt (moment_ymd 2011 1 1))))
        = ValidAt (moment_ymd 2010 5 5)
   \<and> moment_ymd 2010 5 5 \<le> DATE_RANGE_MAX_VALUE
   \<and> \<not> isBefore_any InvalidDate (ValidAt DATE_RANGE_MIN_VALUE)
   \<and> reachable_any (graphScreenReducer_any initialState_any (CHANGE_DATE_FROM_VALUE_any InvalidDate))
   \<and> dateFrom_any (graphScreenReducer_any initialState_any (CHANGE_DATE_FROM_VALUE_any InvalidDate))
        = InvalidDate
   \<and> \<not> isAfter_any InvalidDate (ValidAt DATE_RANGE_MAX_VALUE)
   \<and> reachable_any (graphScreenReducer_any initialState_any (CHANGE_DATE_TO_VALUE_any InvalidDate))
   \<and> dateTo_any (graphScreenReducer_any initialState_any (CHANGE_DATE_TO_VALUE_any InvalidDate))
        = InvalidDate
   \<and> reachable initialState
   \<and> reachable_any (lift_state initialState)"
proof -
  let ?S = "graphScreenReducer_any initialState_any
              (CHANGE_DATE_FROM_VALUE_any (ValidAt (moment_ymd 2011 1 1)))"
  have r: "reachable_any ?S"
    by (rule reachable_any_step [OF reachable_any_init])
  have f: "dateFrom_any ?S = ValidAt (moment_ymd 2011 1 1)"
    by (simp add: changeDateFromValue_any_def isBefore_def range_min_ms mid_dates)
  have t: "dateTo_any ?S = ValidAt (moment_ymd 2010 5 5)"
    by (simp add: changeDateFromValue_any_def isBefore_def range_min_ms mid_dates
        initialState_any_def DATE_WINDOW_TO_VALUE_def clone_def)
  have a: "\<not> isBefore_any InvalidDate (ValidAt DATE_RANGE_MIN_VALUE)" by simp
  have b: "\<not> isAfter_any InvalidDate (ValidAt DATE_RANGE_MAX_VALUE)" by simp
  note w = window_guards_hold [of ?S "moment_ymd 2011 1 1" "moment_ymd 2010 5 5"
      InvalidDate initialState]
  from w r f t a b reachable_init show ?thesis by blast
qed

text \<open>
  C8. No command enforces dateFrom <= dateTo: from the initial state (window 2010-05-03 to
  2010-05-05) the window start 2010-05-10 is accepted and leaves dateFrom strictly after
  dateTo, and so does the accepted window end 2010-05-02.
\<close>

theorem window_order_not_enforced:
  "reachable initialState
   \<and> \<not> isBefore (moment_ymd 2010 5 10) DATE_RANGE_MIN_VALUE
   \<and> dateFrom (graphScreenReducer initialState (CHANGE_DATE_FROM_VALUE (moment_ymd 2010 5 10)))
        = moment_ymd 2010 5 10
   \<and> dateTo (graphScreenReducer initialState (CHANGE_DATE_FROM_VALUE (moment_ymd 2010 5 10)))
        = moment_ymd 2010 5 5
   \<and> isAfter (dateFrom (graphScreenReducer initialState (CHANGE_DATE_FROM_VALUE (moment_ymd 2010 5 10))))
              (dateTo (graphScreenReducer initialState (CHANGE_DATE_FROM_VALUE (moment_ymd 2010 5 10))))
   \<and> \<not> isAfter (moment_ymd 2010 5 2) DATE_RANGE_MAX_VALUE
   \<and> dateFrom (graphScreenReducer initialState (CHANGE_DATE_TO_VALUE (moment_ymd 2010 5 2)))
        = moment_ymd 2010 5 3
   \<and> dateTo (graphScreenReducer initialState (CHANGE_DATE_TO_VALUE (moment_ymd 2010 5 2)))
        = moment_ymd 2010 5 2
   \<and> isAfter (dateFrom (graphScreenReducer initialState (CHANGE_DATE_TO_VALUE (moment_ymd 2010 5 2))))
              (dateTo (graphScreenReducer initialState (CHANGE_DATE_TO_VALUE (moment_ymd 2010 5 2))))"
proof -
  have rest: "\<not> isBefore (moment_ymd 2010 5 10) DATE_RANGE_MIN_VALUE
   \<and> dateFrom (graphScreenReducer initialState (CHANGE_DATE_FROM_VALUE (moment_ymd 2010 5 10)))
        = moment_ymd 2010 5 10
   \<and> dateTo (graphScreenReducer initialState (CHANGE_DATE_FROM_VALUE (moment_ymd 2010 5 10)))
        = moment_ymd 2010 5 5
   \<and> isAfter (dateFrom (graphScreenReducer initialState (CHANGE_DATE_FROM_VALUE (moment_ymd 2010 5 10))))
              (dateTo (graphScreenReducer initialState (CHANGE_DATE_FROM_VALUE (moment_ymd 2010 5 10))))
   \<and> \<not> isAfter (moment_ymd 2010 5 2) DATE_RANGE_MAX_VALUE
   \<and> dateFrom (graphScreenReducer initialState (CHANGE_DATE_TO_VALUE (moment_ymd 2010 5 2)))
        = moment_ymd 2010 5 3
   \<and> dateTo (graphScreenReducer initialState (CHANGE_DATE_TO_VALUE (moment_ymd 2010 5 2)))
        = moment_ymd 2010 5 2
   \<and> isAfter (dateFrom (graphScreenReducer initialState (CHANGE_DATE_TO_VALUE (moment_ymd 2010 5 2))))
              (dateTo (graphScreenReducer initialState (CHANGE_DATE_TO_VALUE (moment_ymd 2010 5 2))))"
    by (simp add: changeDateFromValue_def changeDateToValue_def isBefore_def
        isAfter_def clone_def initialState_def DATE_WINDOW_FROM_VALUE_def DATE_WINDOW_TO_VALUE_def
        range_min_ms range_max_ms mid_dates)
  show ?thesis
    using reachable_init rest by (rule conjI)
qed

section \<open>Copies and aliases\<close>

text \<open>
  C6, as stated: on an accepted command the points carried over into the new state are a
  deep-independent copy, not an alias, of those of the prior state. The handler clones
  the array with \<^verbatim>\<open>_.clone\<close>, which copies the array and not its elements: after an
  accepted window start the new array (reference 11) and the prior one (reference 4) hold
  the same point object (reference 3) and so the same time moment (reference 2).
\<close>

theorem deep_copy_counterexample:
  "changeDateFromValue_ref heap0 5 6 = Some (heap0_start_2010_05_10, 12)
   \<and> state_fields heap0 5 = Some (0, 1, 4)
   \<and> state_fields heap0_start_2010_05_10 12 = Some (6, 10, 11)
   \<and> deref heap0_start_2010_05_10 4 = Some (ArrayObj [3])
   \<and> deref heap0_start_2010_05_10 11 = Some (ArrayObj [3])
   \<and> points_refs heap0_start_2010_05_10 4 = [4, 3, 2]
   \<and> points_refs heap0_start_2010_05_10 11 = [11, 3, 2]
   \<and> \<not> deep_independent heap0_start_2010_05_10 4 11"
  by (simp add: heap0_start_2010_05_10_def heap0_def changeDateFromValue_ref_def
      changeDateToValue_ref_def valueOf_def state_fields_def clone_ref_def lodash_clone_ref_def
      alloc_def deref_def clone_def lodash_clone_def isBefore_def range_min_ms mid_dates
      points_refs_def point_refs_def deep_independent_def)

text \<open>
  C6, amended: no command changes the prior state object or any other object that existed
  before the call, and the prior state still stands for the same value. A rejected
  command returns the very reference it was given and allocates nothing. An accepted
  command returns a newly allocated state whose carried-over dateTo (for a window start)
  or dateFrom (for a window end) is a newly allocated moment with the same timestamp,
  whose points is a newly allocated array with the same element references as the prior
  array (a shallow copy), and whose other date is the payload object itself.
\<close>

theorem commands_copy_shallow:
  assumes S: "state_of h s = Some S" and c: "valueOf h p = Some c"
    and fs: "state_fields h s = Some (dF, dT, pts)"
  shows "(\<exists>h' s'. changeDateFromValue_ref h s p = Some (h', s')
            \<and> take (length h) h' = h \<and> state_of h' s = Some S
            \<and> (if isBefore c DATE_RANGE_MIN_VALUE then h' = h \<and> s' = s
               else length h \<le> s'
                    \<and> (\<exists>dT' pts'. state_fields h' s' = Some (p, dT', pts')
                          \<and> fresh_copy h h' dT dT' \<and> fresh_copy h h' pts pts')))
       \<and> (\<exists>h' s'. changeDateToValue_ref h s p = Some (h', s')
            \<and> take (length h) h' = h \<and> state_of h' s = Some S
            \<and> (if isAfter c DATE_RANGE_MAX_VALUE then h' = h \<and> s' = s
               else length h \<le> s'
                    \<and> (\<exists>dF' pts'. state_fields h' s' = Some (dF', p, pts')
                          \<and> fresh_copy h h' dF dF' \<and> fresh_copy h h' pts pts')))"
proof -
  from S obtain dF0 dT0 pts0 es where
    f0: "deref h s = Some (GraphScreenStateObj dF0 dT0 pts0)"
      "deref h dF0 = Some (MomentObj (dateFrom S))"
      "deref h dT0 = Some (MomentObj (dateTo S))"
      "deref h pts0 = Some (ArrayObj es)"
    by (rule state_ofD)
  from f0(1) fs have eq: "dF0 = dF" "dT0 = dT" "pts0 = pts"
    by (simp_all add: state_fields_def)
  note f = f0 [unfolded eq]
  have from_part: "\<exists>h' s'. changeDateFromValue_ref h s p = Some (h', s')
            \<and> take (length h) h' = h \<and> state_of h' s = Some S
            \<and> (if isBefore c DATE_RANGE_MIN_VALUE then h' = h \<and> s' = s
               else length h \<le> s'
                    \<and> (\<exists>dT' pts'. state_fields h' s' = Some (p, dT', pts')
                          \<and> fresh_copy h h' dT dT' \<and> fresh_copy h h' pts pts'))"
  proof (cases "c < DATE_RANGE_MIN_VALUE")
    case True
    with S changeDateFromValue_ref_reject [OF c True, of s] show ?thesis
      by (simp add: isBefore_def)
  next
    case False
    let ?h' = "h @ [MomentObj (dateTo S), ArrayObj es,
                    GraphScreenStateObj p (length h) (Suc (length h))]"
    have r: "changeDateFromValue_ref h s p = Some (?h', Suc (Suc (length h)))"
      by (rule changeDateFromValue_ref_accept [OF f(1) f(3) f(4) c False])
    have k: "state_of ?h' s = Some S"
      using S by (rule state_of_append)
    have sf: "state_fields ?h' (Suc (Suc (length h))) = Some (p, length h, Suc (length h))"
      by (simp add: state_fields_def deref_new3)
    have c1: "fresh_copy h ?h' dT (length h)"
      by (simp add: fresh_copy_def deref_new3 f)
    have c2: "fresh_copy h ?h' pts (Suc (length h))"
      by (simp add: fresh_copy_def deref_new3 f)
    show ?thesis
      using False r k sf c1 c2 by (simp add: isBefore_def)
  qed
  have to_part: "\<exists>h' s'. changeDateToValue_ref h s p = Some (h', s')
            \<and> take (length h) h' = h \<and> state_of h' s = Some S
            \<and> (if isAfter c DATE_RANGE_MAX_VALUE then h' = h \<and> s' = s
               else length h \<le> s'
                    \<and> (\<exists>dF' pts'. state_fields h' s' = Some (dF', p, pts')
                          \<and> fresh_copy h h' dF dF' \<and> fresh_copy h h' pts pts'))"
  proof (cases "DATE_RANGE_MAX_VALUE < c")
    case True
    with S changeDateToValue_ref_reject [OF c True, of s] show ?thesis
      by (simp add: isAfter_def)
  next
    case False
    let ?h' = "h @ [MomentObj (dateFrom S), ArrayObj es,
                    GraphScreenStateObj (length h) p (Suc (length h))]"
    have r: "changeDateToValue_ref h s p = Some (?h', Suc (Suc (length h)))"
      by (rule changeDateToValue_ref_accept [OF f(1) f(2) f(4) c False])
    have k: "state_of ?h' s = Some S"
      using S by (rule state_of_append)
    have sf: "state_fields ?h' (Suc (Suc (length h))) = Some (length h, p, Suc (length h))"
      by (simp add: state_fields_def deref_new3)
    have c1: "fresh_copy h ?h' dF (length h)"
      by (simp add: fresh_copy_def deref_new3 f)
    have c2: "fresh_copy h ?h' pts (Suc (length h))"
      by (simp add: fresh_copy_def deref_new3 f)
    show ?thesis
      using False r k sf c1 c2 by (simp add: isAfter_def)
  qed
  from from_part to_part show ?thesis by (rule conjI)
qed

theorem commands_copy_shallow_witness:
  "state_of heap0 5 = Some state0
   \<and> valueOf heap0 6 = Some (moment_ymd 2010 5 10)
   \<and> state_fields heap0 5 = Some (0, 1, 4)
   \<and> \<not> isBefore (moment_ymd 2010 5 10) DATE_RANGE_MIN_VALUE
   \<and> \<not> isAfter (moment_ymd 2010 5 10) DATE_RANGE_MAX_VALUE
   \<and> (\<exists>h' s'. changeDateFromValue_ref heap0 5 6 = Some (h', s')
        \<and> take (length heap0) h' = heap0 \<and> state_of h' 5 = Some state0
        \<and> length heap0 \<le> s'
        \<and> (\<exists>dT' pts'. state_fields h' s' = Some (6, dT', pts')
              \<and> fresh_copy heap0 h' 1 dT' \<and> fresh_copy heap0 h' 4 pts'))
   \<and> (\<exists>h' s'. changeDateToValue_ref heap0 5 6 = Some (h', s')
        \<and> take (length heap0) h' = heap0 \<and> state_of h' 5 = Some state0
        \<and> length heap0 \<le> s'
        \<and> (\<exists>dF' pts'. state_fields h' s' = Some (dF', 6, pts')
              \<and> fresh_copy heap0 h' 0 dF' \<and> fresh_copy heap0 h' 4 pts'))"
proof -
  have a: "\<not> isBefore (moment_ymd 2010 5 10) DATE_RANGE_MIN_VALUE"
    by (simp add: isBefore_def range_min_ms mid_dates)
  have b: "\<not> isAfter (moment_ymd 2010 5 10) DATE_RANGE_MAX_VALUE"
    by (simp add: isAfter_def range_max_ms mid_dates)
  show ?thesis
    using a b heap0_facts(1,2,3)
      commands_copy_shallow [OF heap0_facts(1) heap0_facts(3) heap0_facts(2)]
    by simp
qed

section \<open>Commands always return\<close>

text \<open>
  C7, as stated: both commands return a state without raising, and an out-of-range
  window-edge command is a silent no-op whose result is the current state unchanged. The
  second half fails: the window start 2011-01-01 lies after RANGE_MAX, outside the valid
  range, and is accepted, giving a new state with another dateFrom.
\<close>

theorem out_of_range_start_counterexample:
  "valueOf heap0 9 = Some (moment_ymd 2011 1 1)
   \<and> DATE_RANGE_MAX_VALUE < moment_ymd 2011 1 1
   \<and> state_of heap0 5 = Some state0
   \<and> changeDateFromValue_ref heap0 5 9 = Some (heap0_start_2011_01_01, 12)
   \<and> changeDateFromValue_ref heap0 5 9 \<noteq> Some (heap0, 5)
   \<and> state_of heap0_start_2011_01_01 12 = Some (state0\<lparr>dateFrom := moment_ymd 2011 1 1\<rparr>)
   \<and> state0\<lparr>dateFrom := moment_ymd 2011 1 1\<rparr> \<noteq> state0"
  by (simp add: heap0_start_2011_01_01_def heap0_def state0_def changeDateFromValue_ref_def
      valueOf_def state_fields_def clone_ref_def lodash_clone_ref_def
      alloc_def deref_def clone_def lodash_clone_def isBefore_def range_min_ms range_max_ms
      mid_dates state_of_def points_of_def point_of_def)

text \<open>
  C7, amended: for every state and every timestamp payload both commands return a state
  (the one the reducer on values gives) and raise nothing; a window start before
  RANGE_MIN and a window end after RANGE_MAX are silent no-ops that return the current
  state, the very object, unchanged.
\<close>

theorem commands_total:
  assumes S: "state_of h s = Some S" and c: "valueOf h p = Some c"
  shows "(\<exists>h' s'. changeDateFromValue_ref h s p = Some (h', s')
            \<and> state_of h' s' = Some (changeDateFromValue S c))
       \<and> (\<exists>h' s'. changeDateToValue_ref h s p = Some (h', s')
            \<and> state_of h' s' = Some (changeDateToValue S c))
       \<and> (c < DATE_RANGE_MIN_VALUE \<longrightarrow>
            changeDateFromValue_ref h s p = Some (h, s) \<and> changeDateFromValue S c = S)
       \<and> (DATE_RANGE_MAX_VALUE < c \<longrightarrow>
            changeDateToValue_ref h s p = Some (h, s) \<and> changeDateToValue S c = S)"
  using changeDateFromValue_ref_refines [OF S c] changeDateToValue_ref_refines [OF S c]
    changeDateFromValue_ref_reject [OF c, of s] changeDateToValue_ref_reject [OF c, of s]
  by (simp add: changeDateFromValue_def changeDateToValue_def isBefore_def isAfter_def)

theorem commands_total_witness:
  "state_of heap0 5 = Some state0
   \<and> valueOf heap0 7 = Some (moment_ymd 2010 4 30)
   \<and> valueOf heap0 8 = Some (moment_ymd 2010 6 1)
   \<and> moment_ymd 2010 4 30 < DATE_RANGE_MIN_VALUE
   \<and> DATE_RANGE_MAX_VALUE < moment_ymd 2010 6 1
   \<and> changeDateFromValue_ref heap0 5 7 = Some (heap0, 5)
   \<and> changeDateToValue_ref heap0 5 8 = Some (heap0, 5)
   \<and> (\<exists>h' s'. changeDateToValue_ref heap0 5 7 = Some (h', s')
        \<and> state_of h' s' = Some (changeDateToValue state0 (moment_ymd 2010 4 30)))
   \<and> (\<exists>h' s'. changeDateFromValue_ref heap0 5 8 = Some (h', s')
        \<and> state_of h' s' = Some (changeDateFromValue state0 (moment_ymd 2010 6 1)))"
proof -
  have a: "moment_ymd 2010 4 30 < DATE_RANGE_MIN_VALUE"
    by (simp add: range_min_ms moment_ymd_def days_from_civil_def ms_per_day_def)
  have b: "DATE_RANGE_MAX_VALUE < moment_ymd 2010 6 1"
    by (simp add: range_max_ms moment_ymd_def days_from_civil_def ms_per_day_def)
  show ?thesis
    using a b heap0_facts(1,4,5)
      commands_total [OF heap0_facts(1) heap0_facts(4)]
      commands_total [OF heap0_facts(1) heap0_facts(5)]
    by simp
qed

section \<open>The random dots screen\<close>

text \<open>
  C10. The random dots reducer returns its input state unchanged for every action that is
  not one of the three it recognizes; a set-width, set-height or set-text action changes
  the width, the height or the text respectively and leaves every other field as it was.
\<close>

theorem randomDotsScreenReducer_frame:
  "randomDotsScreenReducer (Some s) (OtherAction ty) = s
   \<and> randomDotsScreenReducer (Some s) (SetWidthAction w) = s\<lparr>width := w\<rparr>
   \<and> randomDotsScreenReducer (Some s) (SetHeightAction h) = s\<lparr>height := h\<rparr>
   \<and> randomDotsScreenReducer (Some s) (SetTextAction t) = s\<lparr>text := Some t\<rparr>
   \<and> width (randomDotsScreenReducer (Some s) (SetWidthAction w)) = w
   \<and> height (randomDotsScreenReducer (Some s) (SetWidthAction w)) = height s
   \<and> color (randomDotsScreenReducer (Some s) (SetWidthAction w)) = color s
   \<and> text (randomDotsScreenReducer (Some s) (SetWidthAction w)) = text s
   \<and> width (randomDotsScreenReducer (Some s) (SetHeightAction h)) = width s
   \<and> height (randomDotsScreenReducer (Some s) (SetHeightAction h)) = h
   \<and> color (randomDotsScreenReducer (Some s) (SetHeightAction h)) = color s
   \<and> text (randomDotsScreenReducer (Some s) (SetHeightAction h)) = text s
   \<and> width (randomDotsScreenReducer (Some s) (SetTextAction t)) = width s
   \<and> height (randomDotsScreenReducer (Some s) (SetTextAction t)) = height s
   \<and> color (randomDotsScreenReducer (Some s) (SetTextAction t)) = color s
   \<and> text (randomDotsScreenReducer (Some s) (SetTextAction t)) = Some t"
  by simp

end
